theory Spec2Isabelle
  imports Complex_Main "HOL-Library.Log_Nat"
begin

section \<open>Layers: the list of layers and its draw order\<close>

text \<open>
  A layer object has the nine attributes that \<^verbatim>\<open>layer.__init__\<close> sets. The types of
  the configuration attributes are left open here; the pipeline below instantiates them.
\<close>

record ('g, 's, 'd, 'm, 'p) layer =
  geom :: 'g
  stat :: 's
  data :: 'd
  mapping :: 'm
  position :: 'p
  inherit_aes :: bool
  show_legend :: "bool option"
  active_mapping :: 'm
  zorder :: int

text \<open>
  Python lists hold references. The methods of \<^verbatim>\<open>Layers\<close> assign to
  \<^verbatim>\<open>item.zorder\<close>, so the layer objects live in a store indexed by address and a
  list is a list of addresses; the same address may occur in several lists, or several
  times in one.
\<close>

type_synonym addr = nat

type_synonym ('g, 's, 'd, 'm, 'p) store = "addr \<Rightarrow> ('g, 's, 'd, 'm, 'p) layer"

text \<open>The outcome of a method: the store, the receiver list, and the returned value.\<close>

record ('g, 's, 'd, 'm, 'p, 'r) outcome =
  heap :: "('g, 's, 'd, 'm, 'p) store"
  self :: "addr list"
  ret :: 'r

definition Layers_append ::
  "('g, 's, 'd, 'm, 'p) store \<Rightarrow> addr list \<Rightarrow> addr \<Rightarrow> ('g, 's, 'd, 'm, 'p, unit) outcome" where
  "Layers_append h slf item =
     \<lparr>heap = h(item := (h item)\<lparr>zorder := int (length slf) + 1\<rparr>),
      self = slf @ [item], ret = ()\<rparr>"

text \<open>The loop of \<^verbatim>\<open>_set_zorder\<close>: \<^verbatim>\<open>enumerate(other, start=i)\<close>.\<close>

fun set_zorder_from ::
  "('g, 's, 'd, 'm, 'p) store \<Rightarrow> int \<Rightarrow> addr list \<Rightarrow> ('g, 's, 'd, 'm, 'p) store" where
  "set_zorder_from h i [] = h"
| "set_zorder_from h i (item # rest) =
     set_zorder_from (h(item := (h item)\<lparr>zorder := i\<rparr>)) (i + 1) rest"

definition Layers_set_zorder ::
  "('g, 's, 'd, 'm, 'p) store \<Rightarrow> addr list \<Rightarrow> addr list \<Rightarrow>
   ('g, 's, 'd, 'm, 'p, addr list) outcome" where
  "Layers_set_zorder h slf other =
     \<lparr>heap = set_zorder_from h (int (length slf) + 1) other, self = slf, ret = other\<rparr>"

definition Layers_extend ::
  "('g, 's, 'd, 'm, 'p) store \<Rightarrow> addr list \<Rightarrow> addr list \<Rightarrow> ('g, 's, 'd, 'm, 'p, unit) outcome" where
  "Layers_extend h slf other =
     (let r = Layers_set_zorder h slf other
      in \<lparr>heap = heap r, self = self r @ ret r, ret = ()\<rparr>)"

text \<open>\<^verbatim>\<open>__iadd__\<close> returns the receiver, extended in place.\<close>

definition Layers_iadd ::
  "('g, 's, 'd, 'm, 'p) store \<Rightarrow> addr list \<Rightarrow> addr list \<Rightarrow>
   ('g, 's, 'd, 'm, 'p, addr list) outcome" where
  "Layers_iadd h slf other =
     (let r = Layers_set_zorder h slf other
      in \<lparr>heap = heap r, self = self r @ ret r, ret = self r @ ret r\<rparr>)"

text \<open>\<^verbatim>\<open>__add__\<close> returns a new list and leaves the receiver as it was.\<close>

definition Layers_add ::
  "('g, 's, 'd, 'm, 'p) store \<Rightarrow> addr list \<Rightarrow> addr list \<Rightarrow>
   ('g, 's, 'd, 'm, 'p, addr list) outcome" where
  "Layers_add h slf other =
     (let r = Layers_set_zorder h slf other
      in \<lparr>heap = heap r, self = self r, ret = self r @ ret r\<rparr>)"

text \<open>The zorder values read along a list, and the values \<open>1..n\<close>.\<close>

definition zorders :: "('g, 's, 'd, 'm, 'p) store \<Rightarrow> addr list \<Rightarrow> int list" where
  "zorders h xs = map (\<lambda>a. zorder (h a)) xs"

definition same_but_zorder ::
  "('g, 's, 'd, 'm, 'p) store \<Rightarrow> ('g, 's, 'd, 'm, 'p) store \<Rightarrow> bool" where
  "same_but_zorder h h' = (\<forall>a. h' a = (h a)\<lparr>zorder := zorder (h' a)\<rparr>)"


text \<open>A store for the examples: every address holds a layer with zorder 1.\<close>

definition layer0 :: "(unit, unit, unit, unit, unit) layer" where
  "layer0 = \<lparr>geom = (), stat = (), data = (), mapping = (), position = (),
     inherit_aes = True, show_legend = None, active_mapping = (), zorder = 1\<rparr>"

definition store0 :: "(unit, unit, unit, unit, unit) store" where
  "store0 = (\<lambda>_. layer0)"

section \<open>Datasets\<close>

text \<open>
  The values a cell of a table can hold: Python integers, floating-point numbers
  (as reals), strings, booleans, the missing value, and a compound value such as a list,
  which Python cannot hash.
\<close>

datatype cell = IntV int | FloatV real | StrV string | BoolV bool | NaN | ListV "cell list"

text \<open>A column is a pandas Series: the kind character of its dtype and its values.\<close>

record column =
  kind :: char
  vals :: "cell list"

text \<open>
  A DataFrame: the length of its index and its columns in order. The index itself is
  positional. \<^verbatim>\<open>type(data)()\<close> is the frame with no rows and no columns.
\<close>

record dataframe =
  nrows :: nat
  cols :: "(string \<times> column) list"

definition empty_frame :: dataframe where
  "empty_frame = \<lparr>nrows = 0, cols = []\<rparr>"

text \<open>\<^verbatim>\<open>DataFrame(index=data.index)\<close>: the rows of \<open>data\<close> and no columns.\<close>

definition frame_with_index_of :: "dataframe \<Rightarrow> dataframe" where
  "frame_with_index_of d = \<lparr>nrows = nrows d, cols = []\<rparr>"

definition colnames :: "dataframe \<Rightarrow> string list" where
  "colnames d = map fst (cols d)"

definition getcol :: "dataframe \<Rightarrow> string \<Rightarrow> column option" where
  "getcol d name = map_of (cols d) name"

text \<open>Every column has one value per row, and the column names are distinct.\<close>

definition wf_frame :: "dataframe \<Rightarrow> bool" where
  "wf_frame d = (distinct (colnames d) \<and> (\<forall>c \<in> set (map snd (cols d)). length (vals c) = nrows d))"

text \<open>Storing a column under a name: in place when the name exists, at the end otherwise.\<close>

fun put_assoc :: "string \<Rightarrow> 'v \<Rightarrow> (string \<times> 'v) list \<Rightarrow> (string \<times> 'v) list" where
  "put_assoc k v [] = [(k, v)]"
| "put_assoc k v ((k', v') # rest) =
     (if k' = k then (k, v) # rest else (k', v') # put_assoc k v rest)"

definition put_col :: "string \<Rightarrow> column \<Rightarrow> dataframe \<Rightarrow> dataframe" where
  "put_col name c d = d\<lparr>cols := put_assoc name c (cols d)\<rparr>"

text \<open>
  Converting a Python integer to a floating-point number rounds it to the nearest
  binary64 number, ties to the even mantissa: an integer of at most 53 bits is kept, a
  longer one loses its low bits. \<open>bit_count\<close> is the number of bits of a natural number.
\<close>

definition bit_count :: "nat \<Rightarrow> nat" where
  "bit_count n = floorlog 2 n"

definition round_binary64 :: "int \<Rightarrow> int" where
  "round_binary64 i =
     (let a = nat \<bar>i\<bar>;
          u = 2 ^ (bit_count a - 53);
          q = a div u;
          r = a mod u;
          q' = (if u < 2 * r \<or> (2 * r = u \<and> odd q) then q + 1 else q)
      in sgn i * int (q' * u))"

text \<open>An integer fits the dtype int64, and it fits binary64 when it does not round to infinity.\<close>

definition int64 :: "int \<Rightarrow> bool" where
  "int64 i = (- (2 ^ 63) \<le> i \<and> i < 2 ^ 63)"

definition fits_binary64 :: "int \<Rightarrow> bool" where
  "fits_binary64 i = (\<bar>round_binary64 i\<bar> < 2 ^ 1024)"

text \<open>
  The dtype pandas infers for a sequence of Python values: booleans, integers within
  int64, floats (integers among floats are converted), and the object dtype for anything
  else, an integer beyond int64 included.
\<close>

fun is_bool :: "cell \<Rightarrow> bool" where
  "is_bool (BoolV b) = True"
| "is_bool c = False"

fun is_int64 :: "cell \<Rightarrow> bool" where
  "is_int64 (IntV i) = int64 i"
| "is_int64 c = False"

fun is_int :: "cell \<Rightarrow> bool" where
  "is_int (IntV i) = True"
| "is_int c = False"

fun is_number :: "cell \<Rightarrow> bool" where
  "is_number (IntV i) = fits_binary64 i"
| "is_number (FloatV x) = True"
| "is_number NaN = True"
| "is_number c = False"

fun to_float :: "cell \<Rightarrow> cell" where
  "to_float (IntV i) = FloatV (of_int (round_binary64 i))"
| "to_float c = c"

definition infer_column :: "cell list \<Rightarrow> column" where
  "infer_column vs =
     (if vs = [] then \<lparr>kind = CHR ''O'', vals = []\<rparr>
      else if list_all is_bool vs then \<lparr>kind = CHR ''b'', vals = vs\<rparr>
      else if list_all is_int64 vs then \<lparr>kind = CHR ''i'', vals = vs\<rparr>
      else if list_all is_number vs \<and> \<not> list_all is_int vs
        then \<lparr>kind = CHR ''f'', vals = map to_float vs\<rparr>
      else \<lparr>kind = CHR ''O'', vals = vs\<rparr>)"

text \<open>A list is the one value here that is list-like.\<close>

fun is_list :: "cell \<Rightarrow> bool" where
  "is_list (ListV vs) = True"
| "is_list c = False"

text \<open>
  The values the pipeline assigns to a column: a scalar, a Series (aligned on the
  index), an array or list (matched by length), or some other object, given by the name
  of its type.
\<close>

datatype pyval = Scalar cell | Series column | Array column | Other string

text \<open>
  A Python value read from a cell, as an assignment takes it: a list is a sequence,
  matched by length, anything else is a scalar.
\<close>

fun assigned :: "cell \<Rightarrow> pyval" where
  "assigned (ListV vs) = Array (infer_column vs)"
| "assigned v = Scalar v"

text \<open>
  Aligning a Series to \<open>n\<close> rows. All Series in the pipeline carry the index of the
  layer's dataset, so positions agree wherever both have a row; rows without a partner
  get the missing value.
\<close>

definition reindex :: "nat \<Rightarrow> column \<Rightarrow> column" where
  "reindex n c =
     (if length (vals c) = n then c
      else c\<lparr>vals := take n (vals c @ replicate (n - length (vals c)) NaN)\<rparr>)"

text \<open>
  When a frame without rows is given a sequence, pandas builds the index from the
  sequence and fills the columns it already has with the missing value.
\<close>

definition grow :: "nat \<Rightarrow> dataframe \<Rightarrow> dataframe" where
  "grow n d = \<lparr>nrows = n, cols = map (\<lambda>(name, c). (name, reindex n c)) (cols d)\<rparr>"

text \<open>
  \<^verbatim>\<open>df[name] = value\<close>. A scalar is repeated for every row. A sequence must have one
  value per row, unless the frame has no rows. The left result is the message of the
  exception pandas raises.
\<close>

fun setitem :: "dataframe \<Rightarrow> string \<Rightarrow> pyval \<Rightarrow> string + dataframe" where
  "setitem d name (Scalar v) =
     Inr (put_col name ((infer_column [v])\<lparr>vals := replicate (nrows d) v\<rparr>) d)"
| "setitem d name (Series c) =
     (if nrows d = 0 then Inr (put_col name c (grow (length (vals c)) d))
      else Inr (put_col name (reindex (nrows d) c) d))"
| "setitem d name (Array c) =
     (if nrows d = 0 then Inr (put_col name c (grow (length (vals c)) d))
      else if length (vals c) = nrows d then Inr (put_col name c d)
      else Inl ''Length of values does not match length of index'')"
| "setitem d name (Other t) = Inl ''cannot set a column from this value''"

section \<open>Errors\<close>

text \<open>
  The module raises one exception class, \<^verbatim>\<open>GgplotError\<close>, with four messages in
  \<^verbatim>\<open>compute_aesthetics\<close> and one from \<^verbatim>\<open>check_required_aesthetics\<close>: an expression
  that could not be evaluated (aesthetic, expression, cause), a value of a type that
  cannot be stored (aesthetic, expression, type, cause), a vector of the wrong length,
  an aesthetic of unknown shape, and required aesthetics that are missing. The other
  constructors are the Python exceptions that can pass through, and an exception of an
  external unit.
\<close>

datatype ggplot_message =
    EvalFail string string string
  | BadEvalType string string string string
  | LengthMismatch
  | UnknownAesthetic string
  | MissingAesthetics string "string list"

datatype error =
    GgplotError ggplot_message
  | KeyError string
  | IndexError
  | ValueError string
  | ExternalError string

section \<open>Grouping\<close>

definition NO_GROUP :: int where
  "NO_GROUP = - 1"

text \<open>
  Modelled from the spec: the constant \<^verbatim>\<open>DISCRETE_KINDS\<close> of the utilities module is
  missing. The discrete dtypes are the categorical, boolean and string-like ones: the
  kinds object, boolean, unicode and byte string.
\<close>

definition DISCRETE_KINDS :: "char list" where
  "DISCRETE_KINDS = ''ObUS''"

text \<open>\<^verbatim>\<open>hash(v)\<close> raises TypeError for a compound value.\<close>

fun hashable :: "cell \<Rightarrow> bool" where
  "hashable (ListV vs) = False"
| "hashable c = True"

text \<open>
  The loop of \<^verbatim>\<open>discrete_columns\<close> over the columns in order. \<^verbatim>\<open>iloc[0]\<close> on a
  column without values raises IndexError.
\<close>

fun discrete_columns_loop :: "(string \<times> column) list \<Rightarrow> string list \<Rightarrow> error + string list" where
  "discrete_columns_loop [] ignore = Inr []"
| "discrete_columns_loop ((name, c) # rest) ignore =
     (if kind c \<in> set DISCRETE_KINDS \<and> name \<notin> set ignore then
        (case vals c of
           [] \<Rightarrow> Inl IndexError
         | v # _ \<Rightarrow>
             (if hashable v then
                (case discrete_columns_loop rest ignore of
                   Inl e \<Rightarrow> Inl e
                 | Inr lst \<Rightarrow> Inr (name # lst))
              else discrete_columns_loop rest ignore))
      else discrete_columns_loop rest ignore)"

definition discrete_columns :: "dataframe \<Rightarrow> string list \<Rightarrow> error + string list" where
  "discrete_columns df ignore = discrete_columns_loop (cols df) ignore"

text \<open>
  \<^verbatim>\<open>data[names]\<close> read row by row: for each row the tuple of its values in the named
  columns.
\<close>

definition selected_columns :: "dataframe \<Rightarrow> string list \<Rightarrow> column list" where
  "selected_columns df names = List.map_filter (getcol df) names"

definition row_tuple :: "column list \<Rightarrow> nat \<Rightarrow> cell list" where
  "row_tuple cs i = map (\<lambda>c. vals c ! i) cs"

definition row_tuples :: "dataframe \<Rightarrow> string list \<Rightarrow> cell list list" where
  "row_tuples df names = map (row_tuple (selected_columns df names)) [0..<nrows df]"

text \<open>
  Modelled from the spec: \<^verbatim>\<open>ninteraction\<close> of the utilities module is missing.
  Interaction coding collects the distinct composite keys, ranks them in a
  deterministic order (here the order of first appearance, one of the two orders the
  spec names), and maps each row to the rank of its key, counting from 1.
\<close>

fun distinct_keys :: "'a list \<Rightarrow> 'a list \<Rightarrow> 'a list" where
  "distinct_keys seen [] = rev seen"
| "distinct_keys seen (k # ks) =
     (if k \<in> set seen then distinct_keys seen ks else distinct_keys (k # seen) ks)"

fun rank_of :: "'a list \<Rightarrow> 'a \<Rightarrow> nat" where
  "rank_of [] k = 1"
| "rank_of (u # us) k = (if u = k then 1 else 1 + rank_of us k)"

definition ninteraction :: "'a list \<Rightarrow> int list" where
  "ninteraction keys = map (\<lambda>k. int (rank_of (distinct_keys [] keys) k)) keys"

definition id_column :: "int list \<Rightarrow> column" where
  "id_column ids = \<lparr>kind = CHR ''i'', vals = map IntV ids\<rparr>"

text \<open>
  \<^verbatim>\<open>add_group\<close>. The frame is changed in place and returned; the model returns the new
  frame.
\<close>

definition add_group :: "dataframe \<Rightarrow> error + dataframe" where
  "add_group d =
     (if nrows d = 0 then Inr d
      else if ''group'' \<notin> set (colnames d) then
        (case discrete_columns d [''label''] of
           Inl e \<Rightarrow> Inl e
         | Inr disc \<Rightarrow>
             (if disc \<noteq> [] then
                Inr (put_col ''group'' (id_column (ninteraction (row_tuples d disc))) d)
              else
                Inr (put_col ''group'' (id_column (replicate (nrows d) NO_GROUP)) d)))
      else
        Inr (put_col ''group'' (id_column (ninteraction (row_tuples d [''group'']))) d))"

text \<open>
  Two frames for the examples: the scenario of the spec (\<open>x\<close> numeric, \<open>colour\<close> with
  the values a, b, a), and a frame that already has a numeric \<open>group\<close> column next to
  a discrete column whose two values are equal.
\<close>

definition frame_abc :: dataframe where
  "frame_abc = \<lparr>nrows = 3, cols =
     [(''x'', \<lparr>kind = CHR ''f'', vals = [FloatV 1, FloatV 2, FloatV 3]\<rparr>),
      (''colour'', \<lparr>kind = CHR ''O'', vals = [StrV ''a'', StrV ''b'', StrV ''a'']\<rparr>)]\<rparr>"

definition frame_grouped :: dataframe where
  "frame_grouped = \<lparr>nrows = 2, cols =
     [(''group'', \<lparr>kind = CHR ''f'', vals = [FloatV 1, FloatV 2]\<rparr>),
      (''colour'', \<lparr>kind = CHR ''O'', vals = [StrV ''a'', StrV ''a'']\<rparr>)]\<rparr>"

section \<open>Aesthetic mappings and the external units\<close>

text \<open>
  The value an aesthetic is mapped to, as \<^verbatim>\<open>compute_aesthetics\<close> tells the shapes apart:
  a string, a list-like value, a number that is not iterable, or anything else.
\<close>

datatype aesval = AStr string | AList "cell list" | ANum cell | AOther

text \<open>A mapping is a Python dict: its items in iteration order, with distinct keys.\<close>

type_synonym aes = "(string \<times> aesval) list"

text \<open>
  Modelled from the spec: \<^verbatim>\<open>defaults\<close> of the utilities module is missing. The first
  mapping is overlaid on the second: the second contributes the keys the first lacks.
\<close>

definition defaults :: "(string \<times> 'v) list \<Rightarrow> (string \<times> 'v) list \<Rightarrow> (string \<times> 'v) list" where
  "defaults d1 d2 = d1 @ filter (\<lambda>(k, v). k \<notin> set (map fst d1)) d2"

text \<open>
  Modelled from the spec: \<^verbatim>\<open>is_calculated_aes\<close> and \<^verbatim>\<open>strip_dots\<close> of the aesthetics
  module are missing. A calculated aesthetic is mapped to a string bracketed by the
  reserved token \<open>..\<close>; stripping removes the token at both ends.
\<close>

definition dotted :: "string \<Rightarrow> bool" where
  "dotted s = (5 \<le> length s \<and> take 2 s = ''..'' \<and> drop (length s - 2) s = ''..'')"

fun calculated_value :: "aesval \<Rightarrow> bool" where
  "calculated_value (AStr s) = dotted s"
| "calculated_value v = False"

definition is_calculated_aes :: "aes \<Rightarrow> string list" where
  "is_calculated_aes aesthetics = map fst (filter (\<lambda>(ae, v). calculated_value v) aesthetics)"

definition strip_dots :: "string \<Rightarrow> string" where
  "strip_dots s = take (length s - 4) (drop 2 s)"

text \<open>
  The geometric renderer, the statistic and the position adjustment are used through
  their hooks only; a hook may raise. Parameters are a dict, the panel is an opaque
  token.
\<close>

type_synonym params = "(string \<times> cell) list"
type_synonym panel = nat

record geom_unit =
  aes_params :: aes
  REQUIRED_AES :: "string list"
  class_name :: string
  geom_setup_data :: "dataframe \<Rightarrow> error + dataframe"

record stat_unit =
  DEFAULT_AES :: aes
  retransform :: bool
  stat_setup_params :: "dataframe \<Rightarrow> error + params"
  stat_use_defaults :: "dataframe \<Rightarrow> error + dataframe"
  stat_setup_data :: "dataframe \<Rightarrow> error + dataframe"
  stat_compute_layer :: "dataframe \<Rightarrow> params \<Rightarrow> panel \<Rightarrow> error + dataframe"

record position_unit =
  pos_setup_params :: "dataframe \<Rightarrow> error + params"
  pos_setup_data :: "dataframe \<Rightarrow> params \<Rightarrow> error + dataframe"
  pos_compute_layer :: "dataframe \<Rightarrow> params \<Rightarrow> panel \<Rightarrow> error + dataframe"

text \<open>
  The plot: its mapping, the evaluation of an expression in its environment over the
  columns of a dataset (the result, or the text of the exception), and the scale system
  with its state.
\<close>

record 'sc plot =
  plot_mapping :: aes
  environment :: "string \<Rightarrow> dataframe \<Rightarrow> string + pyval"
  scales :: 'sc
  add_defaults :: "'sc \<Rightarrow> dataframe \<Rightarrow> (string \<times> string) list \<Rightarrow> error + 'sc"
  transform_df :: "'sc \<Rightarrow> dataframe \<Rightarrow> error + dataframe"

type_synonym player = "(geom_unit, stat_unit, dataframe, aes, position_unit) layer"

text \<open>
  Modelled from the spec: \<^verbatim>\<open>check_required_aesthetics\<close> of the utilities module is
  missing. Every required aesthetic must be present; otherwise the error names the
  renderer and the missing aesthetics.
\<close>

definition check_required_aesthetics :: "string list \<Rightarrow> string list \<Rightarrow> string \<Rightarrow> error + unit" where
  "check_required_aesthetics required present name =
     (let missing = filter (\<lambda>ae. ae \<notin> set present) required
      in if missing = [] then Inr () else Inl (GgplotError (MissingAesthetics name missing)))"

section \<open>The pipeline stages of a layer\<close>

text \<open>\<^verbatim>\<open>layer_mapping\<close> returns the active mapping and stores it in the layer.\<close>

definition layer_mapping :: "player \<Rightarrow> aes \<Rightarrow> player \<times> aes" where
  "layer_mapping l m =
     (let aesthetics = (if inherit_aes l then defaults (mapping l) m else mapping l);
          calculated = is_calculated_aes aesthetics;
          d = filter (\<lambda>(ae, v). ae \<notin> set (map fst (aes_params (geom l)))
                                \<and> ae \<notin> set calculated) aesthetics
      in (l\<lparr>active_mapping := d\<rparr>, d))"

text \<open>
  The group override: \<^verbatim>\<open>aesthetics['group'] = self.geom.aes_params['group']\<close>, with
  the KeyError suppressed. The dict is the one stored in the layer.
\<close>

definition override_group :: "player \<times> aes \<Rightarrow> player \<times> aes" where
  "override_group la =
     (case map_of (aes_params (geom (fst la))) ''group'' of
        None \<Rightarrow> la
      | Some v \<Rightarrow> ((fst la)\<lparr>active_mapping := put_assoc ''group'' v (snd la)\<rparr>,
                   put_assoc ''group'' v (snd la)))"

text \<open>
  The type of a value, as the message of a failed assignment prints it.
\<close>

fun type_name :: "pyval \<Rightarrow> string" where
  "type_name (Scalar v) = ''scalar''"
| "type_name (Series c) = ''Series''"
| "type_name (Array c) = ''ndarray''"
| "type_name (Other t) = t"

text \<open>
  One round of the loop over the items of the mapping. The state is the frame
  \<open>evaled\<close> and the flag \<open>has_aes_params\<close>.
\<close>

fun compute_aesthetics_step ::
  "(string \<Rightarrow> dataframe \<Rightarrow> string + pyval) \<Rightarrow> dataframe \<Rightarrow> dataframe \<times> bool \<Rightarrow>
   string \<times> aesval \<Rightarrow> error + dataframe \<times> bool" where
  "compute_aesthetics_step env d (evaled, has) (ae, AStr col) =
     (case getcol d col of
        Some c \<Rightarrow>
          (case setitem evaled ae (Series c) of
             Inl msg \<Rightarrow> Inl (ValueError msg)
           | Inr evaled' \<Rightarrow> Inr (evaled', has))
      | None \<Rightarrow>
          (case env col d of
             Inl cause \<Rightarrow> Inl (GgplotError (EvalFail ae col cause))
           | Inr new_val \<Rightarrow>
               (case setitem evaled ae new_val of
                  Inl msg \<Rightarrow> Inl (GgplotError (BadEvalType ae col (type_name new_val) msg))
                | Inr evaled' \<Rightarrow> Inr (evaled', has))))"
| "compute_aesthetics_step env d (evaled, has) (ae, AList col) =
     (let n = length col in
      if nrows d \<noteq> 0 \<and> n \<noteq> nrows d \<and> n \<noteq> 1 then Inl (GgplotError LengthMismatch)
      else
        (case setitem evaled ae (if n = 1 then assigned (col ! 0) else Array (infer_column col)) of
           Inl msg \<Rightarrow> Inl (ValueError msg)
         | Inr evaled' \<Rightarrow> Inr (evaled', True)))"
| "compute_aesthetics_step env d (evaled, has) (ae, ANum v) =
     (case setitem evaled ae (Scalar v) of
        Inl msg \<Rightarrow> Inl (ValueError msg)
      | Inr evaled' \<Rightarrow> Inr (evaled', has))"
| "compute_aesthetics_step env d (evaled, has) (ae, AOther) =
     Inl (GgplotError (UnknownAesthetic ae))"

fun compute_aesthetics_loop ::
  "(string \<Rightarrow> dataframe \<Rightarrow> string + pyval) \<Rightarrow> dataframe \<Rightarrow> dataframe \<times> bool \<Rightarrow>
   aes \<Rightarrow> error + dataframe \<times> bool" where
  "compute_aesthetics_loop env d st [] = Inr st"
| "compute_aesthetics_loop env d st (item # rest) =
     (case compute_aesthetics_step env d st item of
        Inl e \<Rightarrow> Inl e
      | Inr st' \<Rightarrow> compute_aesthetics_loop env d st' rest)"

text \<open>Integer columns are cast to floating point.\<close>

definition astype_float :: "column \<Rightarrow> column" where
  "astype_float c = \<lparr>kind = CHR ''f'', vals = map to_float (vals c)\<rparr>"

definition cast_int_columns :: "dataframe \<Rightarrow> dataframe" where
  "cast_int_columns d =
     d\<lparr>cols := map (\<lambda>(name, c). (name, if kind c = CHR ''i'' then astype_float c else c)) (cols d)\<rparr>"

text \<open>The PANEL column: the constant 1, or the PANEL column of the layer's dataset.\<close>

definition set_panel :: "dataframe \<Rightarrow> bool \<Rightarrow> dataframe \<Rightarrow> error + dataframe" where
  "set_panel d has evaled =
     (if nrows d = 0 \<and> has then
        (case setitem evaled ''PANEL'' (Scalar (IntV 1)) of
           Inl msg \<Rightarrow> Inl (ValueError msg)
         | Inr evaled' \<Rightarrow> Inr evaled')
      else
        (case getcol d ''PANEL'' of
           None \<Rightarrow> Inl (KeyError ''PANEL'')
         | Some c \<Rightarrow>
             (case setitem evaled ''PANEL'' (Series c) of
                Inl msg \<Rightarrow> Inl (ValueError msg)
              | Inr evaled' \<Rightarrow> Inr evaled')))"

text \<open>
  \<^verbatim>\<open>compute_aesthetics\<close>. The result is the layer with its new dataset and active
  mapping, and the state of the scale system.
\<close>

definition compute_aesthetics :: "player \<Rightarrow> 'sc plot \<Rightarrow> error + player \<times> 'sc" where
  "compute_aesthetics l p =
     (let d = data l;
          la = override_group (layer_mapping l (plot_mapping p))
      in case compute_aesthetics_loop (environment p) d (frame_with_index_of d, False) (snd la) of
           Inl e \<Rightarrow> Inl e
         | Inr (evaled, has) \<Rightarrow>
             (let evaled1 = cast_int_columns evaled
              in case add_defaults p (scales p) evaled1
                        (map (\<lambda>col. (col, col)) (colnames evaled1)) of
                   Inl e \<Rightarrow> Inl e
                 | Inr sc \<Rightarrow>
                     (case set_panel d has evaled1 of
                        Inl e \<Rightarrow> Inl e
                      | Inr evaled2 \<Rightarrow>
                          (case add_group evaled2 of
                             Inl e \<Rightarrow> Inl e
                           | Inr grouped \<Rightarrow> Inr ((fst la)\<lparr>data := grouped\<rparr>, sc)))))"

text \<open>
  The other stages return \<^verbatim>\<open>None\<close>, or a frame on an early return; the second
  component of the result is the returned value.
\<close>

definition compute_statistic :: "player \<Rightarrow> panel \<Rightarrow> error + player \<times> dataframe option" where
  "compute_statistic l pn =
     (let d = data l in
      if nrows d = 0 then Inr (l, Some empty_frame)
      else
        (case stat_setup_params (stat l) d of
           Inl e \<Rightarrow> Inl e
         | Inr prm \<Rightarrow>
             (case stat_use_defaults (stat l) d of
                Inl e \<Rightarrow> Inl e
              | Inr d1 \<Rightarrow>
                  (case stat_setup_data (stat l) d1 of
                     Inl e \<Rightarrow> Inl e
                   | Inr d2 \<Rightarrow>
                       (case stat_compute_layer (stat l) d2 prm pn of
                          Inl e \<Rightarrow> Inl e
                        | Inr d3 \<Rightarrow> Inr (l\<lparr>data := d3\<rparr>, None))))))"

text \<open>
  The loop of \<^verbatim>\<open>map_statistic\<close> over the calculated aesthetics: the dict \<open>new\<close> and the
  frame \<open>stat_data\<close>. Reading a column that the dataset lacks raises KeyError.
\<close>

fun map_statistic_loop ::
  "aes \<Rightarrow> dataframe \<Rightarrow> (string \<times> string) list \<times> dataframe \<Rightarrow> string list \<Rightarrow>
   error + (string \<times> string) list \<times> dataframe" where
  "map_statistic_loop aesthetics d st [] = Inr st"
| "map_statistic_loop aesthetics d (new, stat_data) (ae # rest) =
     (case map_of aesthetics ae of
        Some (AStr s) \<Rightarrow>
          (let new' = put_assoc ae (strip_dots s) new in
           if ae \<noteq> strip_dots s then
             (case getcol d (strip_dots s) of
                None \<Rightarrow> Inl (KeyError (strip_dots s))
              | Some c \<Rightarrow>
                  (case setitem stat_data ae (Series c) of
                     Inl msg \<Rightarrow> Inl (ValueError msg)
                   | Inr stat_data' \<Rightarrow> map_statistic_loop aesthetics d (new', stat_data') rest))
           else map_statistic_loop aesthetics d (new', stat_data) rest)
      | _ \<Rightarrow> Inl (KeyError ae))"

text \<open>
  \<^verbatim>\<open>pd.concat([a, b], axis=1)\<close>: the columns of \<open>a\<close> followed by the columns of \<open>b\<close>,
  over the union of the two indexes.
\<close>

definition concat_columns :: "dataframe \<Rightarrow> dataframe \<Rightarrow> dataframe" where
  "concat_columns a b =
     (let n = max (nrows a) (nrows b)
      in \<lparr>nrows = n, cols = map (\<lambda>(name, c). (name, reindex n c)) (cols a @ cols b)\<rparr>)"

definition map_statistic ::
  "player \<Rightarrow> 'sc plot \<Rightarrow> error + player \<times> 'sc \<times> dataframe option" where
  "map_statistic l p =
     (let d = data l in
      if nrows d = 0 then Inr (l, scales p, Some empty_frame)
      else
        (let aesthetics0 = (if inherit_aes l then defaults (mapping l) (plot_mapping p)
                            else mapping l);
             aesthetics = defaults aesthetics0 (DEFAULT_AES (stat l))
         in case map_statistic_loop aesthetics d ([], empty_frame) (is_calculated_aes aesthetics) of
              Inl e \<Rightarrow> Inl e
            | Inr (new, stat_data) \<Rightarrow>
                (if new = [] then Inr (l, scales p, Some d)
                 else
                   (case add_defaults p (scales p) d new of
                      Inl e \<Rightarrow> Inl e
                    | Inr sc \<Rightarrow>
                        (case (if retransform (stat l) then transform_df p sc stat_data
                               else Inr stat_data) of
                           Inl e \<Rightarrow> Inl e
                         | Inr stat_data' \<Rightarrow>
                             Inr (l\<lparr>data := concat_columns d stat_data'\<rparr>, sc, None))))))"

definition setup_data :: "player \<Rightarrow> error + player \<times> dataframe option" where
  "setup_data l =
     (let d = data l in
      if nrows d = 0 then Inr (l, Some empty_frame)
      else
        (case geom_setup_data (geom l) d of
           Inl e \<Rightarrow> Inl e
         | Inr d1 \<Rightarrow>
             (case check_required_aesthetics (REQUIRED_AES (geom l))
                     (colnames d1 @ map fst (aes_params (geom l))) (class_name (geom l)) of
                Inl e \<Rightarrow> Inl e
              | Inr u \<Rightarrow> Inr (l\<lparr>data := d1\<rparr>, None))))"

definition compute_position :: "player \<Rightarrow> panel \<Rightarrow> error + player \<times> dataframe option" where
  "compute_position l pn =
     (case pos_setup_params (position l) (data l) of
        Inl e \<Rightarrow> Inl e
      | Inr prm \<Rightarrow>
          (case pos_setup_data (position l) (data l) prm of
             Inl e \<Rightarrow> Inl e
           | Inr d1 \<Rightarrow>
               (case pos_compute_layer (position l) d1 prm pn of
                  Inl e \<Rightarrow> Inl e
                | Inr d2 \<Rightarrow> Inr (l\<lparr>data := d2\<rparr>, None))))"

section \<open>Units and layers for the examples\<close>

text \<open>
  Units whose hooks return their input, a plot whose environment defines no name, and
  a layer over a given dataset and mapping.
\<close>

definition geom0 :: geom_unit where
  "geom0 = \<lparr>aes_params = [], REQUIRED_AES = [], class_name = ''geom_point'',
     geom_setup_data = Inr\<rparr>"

definition stat0 :: stat_unit where
  "stat0 = \<lparr>DEFAULT_AES = [], retransform = True,
     stat_setup_params = (\<lambda>d. Inr []), stat_use_defaults = Inr, stat_setup_data = Inr,
     stat_compute_layer = (\<lambda>d prm pn. Inr d)\<rparr>"

definition pos0 :: position_unit where
  "pos0 = \<lparr>pos_setup_params = (\<lambda>d. Inr []), pos_setup_data = (\<lambda>d prm. Inr d),
     pos_compute_layer = (\<lambda>d prm pn. Inr d)\<rparr>"

definition plot0 :: "unit plot" where
  "plot0 = \<lparr>plot_mapping = [], environment = (\<lambda>s d. Inl (''name '' @ s @ '' is not defined'')),
     scales = (), add_defaults = (\<lambda>sc d m. Inr sc), transform_df = (\<lambda>sc d. Inr d)\<rparr>"

definition layer_over :: "dataframe \<Rightarrow> aes \<Rightarrow> player" where
  "layer_over d m = \<lparr>geom = geom0, stat = stat0, data = d, mapping = m, position = pos0,
     inherit_aes = True, show_legend = None, active_mapping = [], zorder = 0\<rparr>"

text \<open>A dataset of five rows, and one of no rows, each with a PANEL column.\<close>

definition frame5 :: dataframe where
  "frame5 = \<lparr>nrows = 5, cols =
     [(''a'', \<lparr>kind = CHR ''f'', vals = [FloatV 1, FloatV 2, FloatV 3, FloatV 4, FloatV 5]\<rparr>),
      (''PANEL'', \<lparr>kind = CHR ''i'', vals = [IntV 1, IntV 1, IntV 1, IntV 2, IntV 2]\<rparr>)]\<rparr>"

definition frame_norows :: dataframe where
  "frame_norows = \<lparr>nrows = 0, cols =
     [(''a'', \<lparr>kind = CHR ''f'', vals = []\<rparr>), (''PANEL'', \<lparr>kind = CHR ''i'', vals = []\<rparr>)]\<rparr>"

text \<open>A position adjustment that rejects a dataset without rows.\<close>

definition pos_strict :: position_unit where
  "pos_strict = pos0\<lparr>pos_setup_params :=
     (\<lambda>d. if nrows d = 0 then Inl (ExternalError ''no rows'') else Inr [])\<rparr>"

text \<open>
  The dataset a statistic has left: the columns \<open>x\<close>, \<open>y\<close> and \<open>count\<close>, two rows.
\<close>

definition frame_stat :: dataframe where
  "frame_stat = \<lparr>nrows = 2, cols =
     [(''x'', \<lparr>kind = CHR ''f'', vals = [FloatV 1, FloatV 2]\<rparr>),
      (''y'', \<lparr>kind = CHR ''f'', vals = [FloatV 3, FloatV 4]\<rparr>),
      (''count'', \<lparr>kind = CHR ''f'', vals = [FloatV 5, FloatV 6]\<rparr>)]\<rparr>"

text \<open>
  A layer over the five rows with \<open>x\<close> mapped to the one-element vector \<open>[5]\<close>, and a layer
  over no rows with \<open>x\<close> mapped to the vector \<open>[5, 6]\<close>, each with the layer that
  \<^verbatim>\<open>compute_aesthetics\<close> leaves.
\<close>

definition layer_x5 :: player where
  "layer_x5 = layer_over frame5 [(''x'', AList [IntV 5])]"

definition layer_x5_resolved :: player where
  "layer_x5_resolved = (layer_over frame5 [(''x'', AList [IntV 5])])
     \<lparr>active_mapping := [(''x'', AList [IntV 5])],
      data := \<lparr>nrows = 5, cols =
        [(''x'', \<lparr>kind = CHR ''f'', vals = replicate 5 (FloatV 5)\<rparr>),
         (''PANEL'', \<lparr>kind = CHR ''i'', vals = [IntV 1, IntV 1, IntV 1, IntV 2, IntV 2]\<rparr>),
         (''group'', \<lparr>kind = CHR ''i'', vals = replicate 5 (IntV (- 1))\<rparr>)]\<rparr>\<rparr>"

definition layer_nodata :: player where
  "layer_nodata = layer_over frame_norows [(''x'', AList [IntV 5, IntV 6])]"

definition layer_nodata_resolved :: player where
  "layer_nodata_resolved = (layer_over frame_norows [(''x'', AList [IntV 5, IntV 6])])
     \<lparr>active_mapping := [(''x'', AList [IntV 5, IntV 6])],
      data := \<lparr>nrows = 2, cols =
        [(''x'', \<lparr>kind = CHR ''f'', vals = [FloatV 5, FloatV 6]\<rparr>),
         (''PANEL'', \<lparr>kind = CHR ''i'', vals = [IntV 1, IntV 1]\<rparr>),
         (''group'', \<lparr>kind = CHR ''i'', vals = [IntV (- 1), IntV (- 1)]\<rparr>)]\<rparr>\<rparr>"

text \<open>
  A layer over the five rows with \<open>group\<close> mapped to the one-element vector \<open>[7]\<close>, with
  the layer that \<^verbatim>\<open>compute_aesthetics\<close> leaves.
\<close>

definition layer_g7 :: player where
  "layer_g7 = layer_over frame5 [(''group'', AList [IntV 7])]"

definition layer_g7_resolved :: player where
  "layer_g7_resolved = (layer_over frame5 [(''group'', AList [IntV 7])])
     \<lparr>active_mapping := [(''group'', AList [IntV 7])],
      data := \<lparr>nrows = 5, cols =
        [(''group'', \<lparr>kind = CHR ''i'', vals = [IntV 1, IntV 1, IntV 1, IntV 1, IntV 1]\<rparr>),
         (''PANEL'', \<lparr>kind = CHR ''i'', vals = [IntV 1, IntV 1, IntV 1, IntV 2, IntV 2]\<rparr>)]\<rparr>\<rparr>"

text \<open>A layer over no rows whose position adjustment rejects such a dataset.\<close>

definition layer_norows_strict :: player where
  "layer_norows_strict = (layer_over frame_norows [])\<lparr>position := pos_strict\<rparr>"

section \<open>Copying a layer\<close>

text \<open>
  The attributes of an object are references. The objects they refer to live in a heap
  of cells; an immutable object (a number, a string, a boolean, \<^verbatim>\<open>None\<close>) is told
  apart from a mutable one, whose content is not looked into. All addresses from
  \<open>limit\<close> on are unused.
\<close>

datatype 'v pyobj = Immutable 'v | Mutable 'v

record 'v pyheap =
  cells :: "addr \<Rightarrow> 'v pyobj option"
  limit :: addr

text \<open>
  \<^verbatim>\<open>copy.deepcopy(x, memo)\<close> of the standard library, on such objects: an object already
  in the memo yields its recorded copy; an immutable object is returned itself; any
  other object is duplicated at an unused address, and the memo records the copy.
\<close>

definition deepcopy ::
  "'v pyheap \<Rightarrow> (addr \<rightharpoonup> addr) \<Rightarrow> addr \<Rightarrow> 'v pyheap \<times> (addr \<rightharpoonup> addr) \<times> addr" where
  "deepcopy hp memo x =
     (case memo x of
        Some y \<Rightarrow> (hp, memo, y)
      | None \<Rightarrow>
          (case cells hp x of
             Some (Immutable v) \<Rightarrow> (hp, memo, x)
           | _ \<Rightarrow>
               (let y = limit hp
                in (hp\<lparr>cells := (cells hp)(y := cells hp x), limit := Suc y\<rparr>, memo(x \<mapsto> y), y))))"

text \<open>
  The loop of \<^verbatim>\<open>layer.__deepcopy__\<close> over the items of the instance dict of the layer:
  the entry \<open>data\<close> keeps its reference, every other entry is deep-copied.
\<close>

fun deepcopy_items ::
  "'v pyheap \<Rightarrow> (addr \<rightharpoonup> addr) \<Rightarrow> (string \<times> addr) list \<Rightarrow>
   'v pyheap \<times> (addr \<rightharpoonup> addr) \<times> (string \<times> addr) list" where
  "deepcopy_items hp memo [] = (hp, memo, [])"
| "deepcopy_items hp memo ((key, item) # rest) =
     (if key = ''data'' then
        (case deepcopy_items hp memo rest of
           (hp', memo', new) \<Rightarrow> (hp', memo', (key, item) # new))
      else
        (case deepcopy hp memo item of
           (hp1, memo1, c) \<Rightarrow>
             (case deepcopy_items hp1 memo1 rest of
                (hp', memo', new) \<Rightarrow> (hp', memo', (key, c) # new))))"

text \<open>
  \<^verbatim>\<open>layer.__deepcopy__(self, memo)\<close>: \<open>slf\<close> is the address of the layer and \<open>old\<close> its
  instance dict. The new instance takes the next unused address and is entered into the
  memo before the attributes are copied. The result is the heap, the memo, the address
  of the new instance and its dict.
\<close>

definition layer_deepcopy ::
  "'v pyheap \<Rightarrow> (addr \<rightharpoonup> addr) \<Rightarrow> addr \<Rightarrow> (string \<times> addr) list \<Rightarrow>
   'v pyheap \<times> (addr \<rightharpoonup> addr) \<times> addr \<times> (string \<times> addr) list" where
  "layer_deepcopy hp memo slf old =
     (let result = limit hp;
          hp0 = hp\<lparr>limit := Suc result\<rparr>;
          memo0 = memo(slf \<mapsto> result)
      in case deepcopy_items hp0 memo0 old of
           (hp', memo', new) \<Rightarrow> (hp', memo', result, new))"

text \<open>
  How an attribute of the copy relates to the attribute of the original: the entry
  \<open>data\<close> holds the same address; any other entry holds the copy itself when the
  attribute refers back to the layer, the same immutable object, or an address that was
  unused before the copy and now holds the content of the original's object.
\<close>

definition field_copied ::
  "'v pyheap \<Rightarrow> 'v pyheap \<Rightarrow> addr \<Rightarrow> addr \<Rightarrow> string \<times> addr \<Rightarrow> string \<times> addr \<Rightarrow> bool" where
  "field_copied hp hp' slf result old_item new_item =
     (fst new_item = fst old_item \<and>
      (if fst old_item = ''data'' then snd new_item = snd old_item
       else (snd old_item = slf \<and> snd new_item = result)
          \<or> (\<exists>v. cells hp (snd old_item) = Some (Immutable v) \<and> snd new_item = snd old_item)
          \<or> (limit hp < snd new_item \<and> snd new_item < limit hp'
              \<and> cells hp' (snd new_item) = cells hp (snd old_item))))"

text \<open>
  The invariant of the copying loop, relative to the heap \<open>hp\<close> before the copy: the
  cells of \<open>hp\<close> are untouched, and every entry of the memo is the layer with its new
  instance or an object with its duplicate at an address unused in \<open>hp\<close>.
\<close>
definition copy_inv ::
  "'v pyheap \<Rightarrow> addr \<Rightarrow> addr \<Rightarrow> 'v pyheap \<Rightarrow> (addr \<rightharpoonup> addr) \<Rightarrow> bool" where
  "copy_inv hp slf result h memo =
     (limit hp < limit h \<and> (\<forall>x<limit hp. cells h x = cells hp x)
      \<and> (\<forall>x y. memo x = Some y \<longrightarrow>
            (x = slf \<and> y = result)
          \<or> (limit hp < y \<and> y < limit h \<and> cells h y = cells hp x)))"

text \<open>
  A layer for the examples: the dataset and the geom are mutable objects, the flag
  \<open>inherit_aes\<close> is an immutable one.
\<close>

definition heap3 :: "string pyheap" where
  "heap3 = \<lparr>cells = (\<lambda>a. if a = 1 then Some (Mutable ''dataframe'')
                         else if a = 2 then Some (Mutable ''geom_point'')
                         else if a = 3 then Some (Immutable ''True'')
                         else None),
            limit = 4\<rparr>"

definition dict3 :: "(string \<times> addr) list" where
  "dict3 = [(''geom'', 2), (''data'', 1), (''inherit_aes'', 3)]"

section \<open>Properties of Layers\<close>

lemma set_zorder_from_other:
  "a \<notin> set xs \<Longrightarrow> set_zorder_from h i xs a = h a"
  by (induction xs arbitrary: h i) auto

lemma set_zorder_from_some:
  "\<exists>z. set_zorder_from h i xs a = (h a)\<lparr>zorder := z\<rparr>"
proof (induction xs arbitrary: h i)
  case Nil
  have "h a = (h a)\<lparr>zorder := zorder (h a)\<rparr>" by simp
  then show ?case by (metis set_zorder_from.simps(1))
next
  case (Cons x xs)
  obtain z where z: "set_zorder_from (h(x := (h x)\<lparr>zorder := i\<rparr>)) (i + 1) xs a
      = ((h(x := (h x)\<lparr>zorder := i\<rparr>)) a)\<lparr>zorder := z\<rparr>"
    using Cons.IH by blast
  show ?case
  proof (cases "a = x")
    case True
    then show ?thesis using z by auto
  next
    case False
    then show ?thesis using z by auto
  qed
qed

lemma set_zorder_from_frame:
  "same_but_zorder h (set_zorder_from h i xs)"
  unfolding same_but_zorder_def
proof
  fix a
  obtain z where "set_zorder_from h i xs a = (h a)\<lparr>zorder := z\<rparr>"
    using set_zorder_from_some by blast
  then show "set_zorder_from h i xs a = (h a)\<lparr>zorder := zorder (set_zorder_from h i xs a)\<rparr>"
    by simp
qed

lemma zorders_untouched:
  "set xs \<inter> set ys = {} \<Longrightarrow> zorders (set_zorder_from h i ys) xs = zorders h xs"
proof -
  assume d: "set xs \<inter> set ys = {}"
  have "\<And>x. x \<in> set xs \<Longrightarrow> set_zorder_from h i ys x = h x"
    using d by (intro set_zorder_from_other) auto
  then show ?thesis by (simp add: zorders_def)
qed

lemma upto_append_len:
  "[1..int n] @ [int n + 1..int n + int m] = [1..int (n + m)]"
proof (cases n)
  case 0
  then show ?thesis by simp
next
  case (Suc k)
  have "[1..int n + int m] = [1..int n] @ [int n + 1..int n + int m]"
    by (rule upto_split2) (use Suc in auto)
  then show ?thesis by simp
qed

lemma zorders_set_zorder_from:
  "distinct xs \<Longrightarrow> zorders (set_zorder_from h i xs) xs = [i..i + int (length xs) - 1]"
proof (induction xs arbitrary: h i)
  case Nil
  then show ?case by (simp add: zorders_def)
next
  case (Cons x xs)
  have "zorder (set_zorder_from (h(x := (h x)\<lparr>zorder := i\<rparr>)) (i + 1) xs x) = i"
    using Cons.prems by (simp add: set_zorder_from_other)
  moreover have "zorders (set_zorder_from (h(x := (h x)\<lparr>zorder := i\<rparr>)) (i + 1) xs) xs
      = [i + 1..i + 1 + int (length xs) - 1]"
    using Cons.prems Cons.IH by simp
  moreover have "[i..i + int (length (x # xs)) - 1] = i # [i + 1..i + 1 + int (length xs) - 1]"
    by (simp add: upto_rec1)
  ultimately show ?case by (simp add: zorders_def)
qed

lemma zorders_app: "zorders h (xs @ ys) = zorders h xs @ zorders h ys"
  by (simp add: zorders_def)

lemma zorders_new:
  "distinct M \<Longrightarrow> zorders (set_zorder_from h (int (length L) + 1) M) M
     = [int (length L) + 1..int (length L) + int (length M)]"
  by (simp add: zorders_set_zorder_from)

lemma extend_zorders:
  assumes "zorders h L = [1..int (length L)]" "distinct M" "set L \<inter> set M = {}"
  shows "zorders (set_zorder_from h (int (length L) + 1) M) (L @ M) = [1..int (length (L @ M))]"
proof -
  have "zorders (set_zorder_from h (int (length L) + 1) M) L = [1..int (length L)]"
    using assms by (simp add: zorders_untouched)
  then show ?thesis
    using zorders_new[OF assms(2), of h L] by (simp add: zorders_app upto_append_len)
qed

lemma append_is_set_zorder_from:
  "heap (Layers_append h L item) = set_zorder_from h (int (length L) + 1) [item]"
  by (simp add: Layers_append_def)

text \<open>
  Claim C1, as amended. Let the zorder values of the members of \<open>L\<close> be \<open>1..N\<close> in list
  order. If the inserted layers are pairwise distinct objects and none of them is already
  a member of \<open>L\<close>, then after \<^verbatim>\<open>append\<close>, \<^verbatim>\<open>extend\<close>, \<^verbatim>\<open>+=\<close> or \<^verbatim>\<open>+\<close> the zorder
  values along the resulting list are \<open>1..M\<close> in list order, \<open>M\<close> its length, and no
  attribute other than zorder of any layer has changed.
\<close>

theorem Layers_insert_zorder:
  assumes "zorders h L = [1..int (length L)]"
    and "distinct M" and "set L \<inter> set M = {}" and "item \<notin> set L"
  shows "self (Layers_append h L item) = L @ [item]
       \<and> zorders (heap (Layers_append h L item)) (L @ [item]) = [1..int (length (L @ [item]))]
       \<and> same_but_zorder h (heap (Layers_append h L item))
       \<and> self (Layers_extend h L M) = L @ M
       \<and> zorders (heap (Layers_extend h L M)) (L @ M) = [1..int (length (L @ M))]
       \<and> same_but_zorder h (heap (Layers_extend h L M))
       \<and> self (Layers_iadd h L M) = L @ M \<and> ret (Layers_iadd h L M) = L @ M
       \<and> zorders (heap (Layers_iadd h L M)) (L @ M) = [1..int (length (L @ M))]
       \<and> same_but_zorder h (heap (Layers_iadd h L M))
       \<and> ret (Layers_add h L M) = L @ M
       \<and> zorders (heap (Layers_add h L M)) (L @ M) = [1..int (length (L @ M))]
       \<and> same_but_zorder h (heap (Layers_add h L M))"
proof -
  have a: "zorders (heap (Layers_append h L item)) (L @ [item]) = [1..int (length (L @ [item]))]"
    unfolding append_is_set_zorder_from
    by (rule extend_zorders) (use assms in auto)
  have fa: "same_but_zorder h (heap (Layers_append h L item))"
    unfolding append_is_set_zorder_from by (rule set_zorder_from_frame)
  have e: "zorders (set_zorder_from h (int (length L) + 1) M) (L @ M) = [1..int (length (L @ M))]"
    by (rule extend_zorders) (use assms in auto)
  have fe: "same_but_zorder h (set_zorder_from h (int (length L) + 1) M)"
    by (rule set_zorder_from_frame)
  have hs: "heap (Layers_extend h L M) = set_zorder_from h (int (length L) + 1) M"
    "heap (Layers_iadd h L M) = set_zorder_from h (int (length L) + 1) M"
    "heap (Layers_add h L M) = set_zorder_from h (int (length L) + 1) M"
    by (simp_all add: Layers_extend_def Layers_iadd_def Layers_add_def Layers_set_zorder_def Let_def)
  have ls: "self (Layers_append h L item) = L @ [item]" "self (Layers_extend h L M) = L @ M"
    "self (Layers_iadd h L M) = L @ M" "ret (Layers_iadd h L M) = L @ M"
    "ret (Layers_add h L M) = L @ M"
    by (simp_all add: Layers_append_def Layers_extend_def Layers_iadd_def Layers_add_def
        Layers_set_zorder_def Let_def)
  show ?thesis
    unfolding hs ls using a fa e fe by (intro conjI) simp_all
qed

theorem Layers_insert_zorder_witness:
  "zorders store0 [] = [1..int (length ([]::addr list))]
   \<and> distinct [0::addr, 1] \<and> set [] \<inter> set [0::addr, 1] = {} \<and> (2::addr) \<notin> set []
   \<and> zorders (heap (Layers_append store0 [] 2)) ([] @ [2]) = [1..int (length ([] @ [2::addr]))]
   \<and> zorders (heap (Layers_extend store0 [] [0, 1])) ([] @ [0, 1])
       = [1..int (length ([] @ [0::addr, 1]))]"
  using Layers_insert_zorder [of store0 "[]" "[0, 1]" 2]
  by (simp add: zorders_def)

text \<open>
  The claim as stated quantifies over every insertion. Appending a layer that is already
  the only member of the list writes 2 into its zorder, and the list then reads 2, 2.
\<close>

theorem Layers_append_alias_counterexample:
  "zorders (store0(0 := layer0\<lparr>zorder := 1\<rparr>)) [0] = [1..int (length [0::addr])]
   \<and> zorders (heap (Layers_append (store0(0 := layer0\<lparr>zorder := 1\<rparr>)) [0] 0))
        (self (Layers_append (store0(0 := layer0\<lparr>zorder := 1\<rparr>)) [0] 0))
      \<noteq> [1..int (length (self (Layers_append (store0(0 := layer0\<lparr>zorder := 1\<rparr>)) [0] 0)))]"
  by (simp add: zorders_def Layers_append_def store0_def layer0_def upto_rec1)

text \<open>
  Claim C10, as amended. For every list \<open>L\<close> and every list \<open>M\<close> of pairwise distinct
  layer objects, \<^verbatim>\<open>L + M\<close>, \<^verbatim>\<open>L.extend(M)\<close> and \<^verbatim>\<open>L += M\<close> write
  \<open>len(L)+1 .. len(L)+len(M)\<close>, in order, into the zorder attributes of the layers of
  \<open>M\<close> in the store, whatever they held before, and change nothing else; \<^verbatim>\<open>+\<close> returns
  the concatenation and leaves the receiver list as it was.
\<close>

theorem Layers_add_mutates_other:
  assumes "distinct M"
  shows "ret (Layers_add h L M) = L @ M \<and> self (Layers_add h L M) = L
       \<and> zorders (heap (Layers_add h L M)) M
           = [int (length L) + 1..int (length L) + int (length M)]
       \<and> zorders (heap (Layers_extend h L M)) M
           = [int (length L) + 1..int (length L) + int (length M)]
       \<and> zorders (heap (Layers_iadd h L M)) M
           = [int (length L) + 1..int (length L) + int (length M)]
       \<and> same_but_zorder h (heap (Layers_add h L M))"
proof -
  have hs: "heap (Layers_extend h L M) = set_zorder_from h (int (length L) + 1) M"
    "heap (Layers_iadd h L M) = set_zorder_from h (int (length L) + 1) M"
    "heap (Layers_add h L M) = set_zorder_from h (int (length L) + 1) M"
    by (simp_all add: Layers_extend_def Layers_iadd_def Layers_add_def Layers_set_zorder_def Let_def)
  have ls: "ret (Layers_add h L M) = L @ M" "self (Layers_add h L M) = L"
    by (simp_all add: Layers_add_def Layers_set_zorder_def Let_def)
  show ?thesis
    unfolding hs ls using zorders_new[OF assms, of h L] set_zorder_from_frame[of h]
    by simp
qed

theorem Layers_add_mutates_other_witness:
  "distinct [5::addr, 6]
   \<and> self (Layers_add store0 [0] [5, 6]) = [0]
   \<and> zorders (heap (Layers_add store0 [0] [5, 6])) [5, 6] = [2, 3]"
  using Layers_add_mutates_other [of "[5, 6]" store0 "[0]"]
  by (simp add: upto_rec1)

text \<open>
  With the same object twice in \<open>M\<close> the second assignment overwrites the first: both
  positions of \<open>M\<close> read \<open>len(L)+2\<close>.
\<close>

theorem Layers_add_duplicate_counterexample:
  "zorders (heap (Layers_add store0 [] [0, 0])) [0, 0]
     \<noteq> [int (length ([]::addr list)) + 1..int (length ([]::addr list)) + int (length [0::addr, 0])]"
  by (simp add: zorders_def Layers_add_def Layers_set_zorder_def store0_def layer0_def upto_rec1)

section \<open>Properties of the grouping step\<close>

lemma distinct_keys_props:
  "distinct seen \<Longrightarrow> distinct (distinct_keys seen ks) \<and> set (distinct_keys seen ks) = set seen \<union> set ks"
  by (induction seen ks rule: distinct_keys.induct) auto

lemma rank_of_bounds: "k \<in> set us \<Longrightarrow> 1 \<le> rank_of us k \<and> rank_of us k \<le> length us"
  by (induction us) auto

lemma rank_of_nth: "k \<in> set us \<Longrightarrow> us ! (rank_of us k - 1) = k"
proof (induction us)
  case Nil then show ?case by simp
next
  case (Cons u us)
  show ?case
  proof (cases "u = k")
    case True then show ?thesis by simp
  next
    case False
    then have "k \<in> set us" using Cons.prems by simp
    then show ?thesis using Cons.IH False rank_of_bounds[of k us] by (simp add: nth_Cons')
  qed
qed

lemma rank_of_inj:
  "k \<in> set us \<Longrightarrow> k' \<in> set us \<Longrightarrow> rank_of us k = rank_of us k' \<Longrightarrow> k = k'"
  by (metis rank_of_nth)

lemma rank_of_at: "distinct us \<Longrightarrow> i < length us \<Longrightarrow> rank_of us (us ! i) = Suc i"
proof (induction us arbitrary: i)
  case Nil then show ?case by simp
next
  case (Cons u us)
  then show ?case by (cases i) auto
qed

lemma rank_of_image:
  assumes "distinct us"
  shows "rank_of us ` set us = {1..length us}"
proof
  show "rank_of us ` set us \<subseteq> {1..length us}"
    using rank_of_bounds by fastforce
  show "{1..length us} \<subseteq> rank_of us ` set us"
  proof
    fix r assume "r \<in> {1..length us}"
    then have "r - 1 < length us" "Suc (r - 1) = r" by auto
    then have "rank_of us (us ! (r - 1)) = r" using rank_of_at[OF assms, of "r - 1"] by simp
    moreover have "us ! (r - 1) \<in> set us" using \<open>r - 1 < length us\<close> by simp
    ultimately show "r \<in> rank_of us ` set us" by force
  qed
qed

lemma length_ninteraction: "length (ninteraction keys) = length keys"
  by (simp add: ninteraction_def)

lemma ninteraction_eq_iff:
  assumes "i < length keys" "j < length keys"
  shows "(ninteraction keys ! i = ninteraction keys ! j) = (keys ! i = keys ! j)"
proof -
  have s: "set (distinct_keys [] keys) = set keys"
    using distinct_keys_props[of "[]" keys] by simp
  have "keys ! i \<in> set (distinct_keys [] keys)" "keys ! j \<in> set (distinct_keys [] keys)"
    using assms s by auto
  then show ?thesis using assms
    by (auto simp: ninteraction_def dest: rank_of_inj)
qed

lemma set_ninteraction:
  "set (ninteraction keys) = int ` {1..card (set keys)}"
proof -
  have d: "distinct (distinct_keys [] keys)" and s: "set (distinct_keys [] keys) = set keys"
    using distinct_keys_props[of "[]" keys] by simp_all
  have "length (distinct_keys [] keys) = card (set keys)"
    using d s distinct_card by metis
  moreover have "set (ninteraction keys) = int ` rank_of (distinct_keys [] keys) ` set keys"
    by (auto simp: ninteraction_def)
  ultimately show ?thesis using rank_of_image[OF d] s by simp
qed


lemma discrete_columns_loop_total:
  "\<forall>c \<in> set (map snd cs). vals c \<noteq> [] \<Longrightarrow> \<exists>lst. discrete_columns_loop cs ign = Inr lst"
proof (induction cs)
  case Nil
  then show ?case by simp
next
  case (Cons p cs)
  obtain name c where p: "p = (name, c)" by (cases p)
  obtain lst where l: "discrete_columns_loop cs ign = Inr lst" using Cons by auto
  obtain v vs where v: "vals c = v # vs" using Cons.prems p by (cases "vals c") auto
  show ?case by (simp add: p l v)
qed

lemma put_assoc_new: "k \<notin> set (map fst xs) \<Longrightarrow> put_assoc k v xs = xs @ [(k, v)]"
  by (induction xs) auto

lemma length_row_tuples: "length (row_tuples d names) = nrows d"
  by (simp add: row_tuples_def)

lemma id_column_vals_eq:
  "i < length ids \<Longrightarrow> j < length ids \<Longrightarrow>
   (vals (id_column ids) ! i = vals (id_column ids) ! j) = (ids ! i = ids ! j)"
  by (simp add: id_column_def)

lemma group_ids_partition:
  assumes "g = id_column (ninteraction (row_tuples d names))"
  shows "length (vals g) = nrows d
     \<and> (\<forall>i<nrows d. \<forall>j<nrows d.
          (vals g ! i = vals g ! j) = (row_tuples d names ! i = row_tuples d names ! j))
     \<and> set (vals g) = (\<lambda>k. IntV (int k)) ` {1..card (set (row_tuples d names))}"
proof -
  let ?keys = "row_tuples d names"
  have len: "length (ninteraction ?keys) = nrows d"
    by (simp add: length_ninteraction length_row_tuples)
  have 1: "length (vals g) = nrows d" using assms len by (simp add: id_column_def)
  have 2: "\<forall>i<nrows d. \<forall>j<nrows d. (vals g ! i = vals g ! j) = (?keys ! i = ?keys ! j)"
    using assms len by (simp add: id_column_vals_eq ninteraction_eq_iff length_row_tuples)
  have "set (vals g) = IntV ` set (ninteraction ?keys)"
    using assms by (simp add: id_column_def)
  then have 3: "set (vals g) = (\<lambda>k. IntV (int k)) ` {1..card (set ?keys)}"
    by (simp add: set_ninteraction image_image)
  show ?thesis using 1 2 3 by blast
qed

text \<open>
  Claim C2, as amended. For every well-formed dataset, \<^verbatim>\<open>add_group\<close> returns without
  error and keeps the rows and the other columns as they are. A dataset without rows is
  returned unchanged. For a dataset with rows and no \<open>group\<close> column, a \<open>group\<close>
  column with one id per row is appended: two rows have equal ids exactly when their
  tuples of values in the selected discrete columns are equal; when at least one discrete
  column is selected the set of ids is \<open>1..K\<close>, \<open>K\<close> the number of distinct tuples, and
  otherwise every id is \<open>NO_GROUP\<close>. For a dataset with rows that already has a \<open>group\<close>
  column, that column is replaced in place by the interaction coding of its own values
  alone, whatever the discrete columns hold.
\<close>

theorem add_group_partition:
  assumes "wf_frame d"
  shows "(nrows d = 0 \<longrightarrow> add_group d = Inr d)
   \<and> (0 < nrows d \<longrightarrow> ''group'' \<notin> set (colnames d) \<longrightarrow>
        (\<exists>disc g. discrete_columns d [''label''] = Inr disc
           \<and> add_group d = Inr (d\<lparr>cols := cols d @ [(''group'', g)]\<rparr>)
           \<and> length (vals g) = nrows d
           \<and> (\<forall>i<nrows d. \<forall>j<nrows d.
                (vals g ! i = vals g ! j) = (row_tuples d disc ! i = row_tuples d disc ! j))
           \<and> (disc \<noteq> [] \<longrightarrow>
                set (vals g) = (\<lambda>k. IntV (int k)) ` {1..card (set (row_tuples d disc))})
           \<and> (disc = [] \<longrightarrow> vals g = replicate (nrows d) (IntV NO_GROUP))))
   \<and> (0 < nrows d \<longrightarrow> ''group'' \<in> set (colnames d) \<longrightarrow>
        (\<exists>g. add_group d = Inr (d\<lparr>cols := put_assoc ''group'' g (cols d)\<rparr>)
           \<and> length (vals g) = nrows d
           \<and> (\<forall>i<nrows d. \<forall>j<nrows d.
                (vals g ! i = vals g ! j)
                  = (row_tuples d [''group''] ! i = row_tuples d [''group''] ! j))
           \<and> set (vals g) = (\<lambda>k. IntV (int k)) ` {1..card (set (row_tuples d [''group'']))}))"
proof (intro conjI impI)
  assume "nrows d = 0"
  then show "add_group d = Inr d" by (simp add: add_group_def)
next
  assume pos: "0 < nrows d" and ng: "''group'' \<notin> set (colnames d)"
  have "\<forall>c \<in> set (map snd (cols d)). vals c \<noteq> []"
    using assms pos by (auto simp: wf_frame_def)
  then obtain disc where disc: "discrete_columns d [''label''] = Inr disc"
    unfolding discrete_columns_def using discrete_columns_loop_total by blast
  have put: "\<And>g. put_col ''group'' g d = d\<lparr>cols := cols d @ [(''group'', g)]\<rparr>"
    using ng by (simp add: put_col_def colnames_def put_assoc_new)
  show "\<exists>disc g. discrete_columns d [''label''] = Inr disc
           \<and> add_group d = Inr (d\<lparr>cols := cols d @ [(''group'', g)]\<rparr>)
           \<and> length (vals g) = nrows d
           \<and> (\<forall>i<nrows d. \<forall>j<nrows d.
                (vals g ! i = vals g ! j) = (row_tuples d disc ! i = row_tuples d disc ! j))
           \<and> (disc \<noteq> [] \<longrightarrow>
                set (vals g) = (\<lambda>k. IntV (int k)) ` {1..card (set (row_tuples d disc))})
           \<and> (disc = [] \<longrightarrow> vals g = replicate (nrows d) (IntV NO_GROUP))"
  proof (cases "disc = []")
    case True
    let ?g = "id_column (replicate (nrows d) NO_GROUP)"
    have a: "add_group d = Inr (d\<lparr>cols := cols d @ [(''group'', ?g)]\<rparr>)"
      using pos ng disc True by (simp add: add_group_def put)
    have v: "vals ?g = replicate (nrows d) (IntV NO_GROUP)" by (simp add: id_column_def)
    have k: "\<forall>i<nrows d. \<forall>j<nrows d. row_tuples d disc ! i = row_tuples d disc ! j"
      unfolding True by (simp add: row_tuples_def row_tuple_def selected_columns_def)
    show ?thesis
    proof (rule exI[of _ disc], rule exI[of _ ?g], intro conjI impI)
      show "discrete_columns d [''label''] = Inr disc" by (rule disc)
      show "add_group d = Inr (d\<lparr>cols := cols d @ [(''group'', ?g)]\<rparr>)" by (rule a)
      show "length (vals ?g) = nrows d" by (simp add: v)
      show "\<forall>i<nrows d. \<forall>j<nrows d.
          (vals ?g ! i = vals ?g ! j) = (row_tuples d disc ! i = row_tuples d disc ! j)"
      proof (intro allI impI)
        fix i j assume ij: "i < nrows d" "j < nrows d"
        then have "row_tuples d disc ! i = row_tuples d disc ! j" using k by blast
        then show "(vals ?g ! i = vals ?g ! j) = (row_tuples d disc ! i = row_tuples d disc ! j)"
          using ij by (simp add: v)
      qed
      show "vals ?g = replicate (nrows d) (IntV NO_GROUP)" by (rule v)
      assume "disc \<noteq> []"
      then show "set (vals ?g) = (\<lambda>k. IntV (int k)) ` {1..card (set (row_tuples d disc))}"
        using True by simp
    qed
  next
    case False
    let ?g = "id_column (ninteraction (row_tuples d disc))"
    have a: "add_group d = Inr (d\<lparr>cols := cols d @ [(''group'', ?g)]\<rparr>)"
      using pos ng disc False by (simp add: add_group_def put)
    have gp: "length (vals ?g) = nrows d
     \<and> (\<forall>i<nrows d. \<forall>j<nrows d.
          (vals ?g ! i = vals ?g ! j) = (row_tuples d disc ! i = row_tuples d disc ! j))
     \<and> set (vals ?g) = (\<lambda>k. IntV (int k)) ` {1..card (set (row_tuples d disc))}"
      by (rule group_ids_partition) (rule refl)
    show ?thesis
    proof (rule exI[of _ disc], rule exI[of _ ?g], intro conjI impI)
      show "discrete_columns d [''label''] = Inr disc" by (rule disc)
      show "add_group d = Inr (d\<lparr>cols := cols d @ [(''group'', ?g)]\<rparr>)" by (rule a)
      show "length (vals ?g) = nrows d" using gp by blast
      show "\<forall>i<nrows d. \<forall>j<nrows d.
          (vals ?g ! i = vals ?g ! j) = (row_tuples d disc ! i = row_tuples d disc ! j)"
        using gp by blast
      show "set (vals ?g) = (\<lambda>k. IntV (int k)) ` {1..card (set (row_tuples d disc))}"
        using gp by blast
      assume "disc = []"
      then show "vals ?g = replicate (nrows d) (IntV NO_GROUP)" using False by simp
    qed
  qed
next
  assume pos: "0 < nrows d" and g: "''group'' \<in> set (colnames d)"
  let ?g = "id_column (ninteraction (row_tuples d [''group'']))"
  have a: "add_group d = Inr (d\<lparr>cols := put_assoc ''group'' ?g (cols d)\<rparr>)"
    using pos g by (simp add: add_group_def put_col_def)
  show "\<exists>g. add_group d = Inr (d\<lparr>cols := put_assoc ''group'' g (cols d)\<rparr>)
           \<and> length (vals g) = nrows d
           \<and> (\<forall>i<nrows d. \<forall>j<nrows d.
                (vals g ! i = vals g ! j)
                  = (row_tuples d [''group''] ! i = row_tuples d [''group''] ! j))
           \<and> set (vals g) = (\<lambda>k. IntV (int k)) ` {1..card (set (row_tuples d [''group'']))}"
  proof (rule exI[of _ ?g], intro conjI)
    have gp: "length (vals ?g) = nrows d
     \<and> (\<forall>i<nrows d. \<forall>j<nrows d.
          (vals ?g ! i = vals ?g ! j)
            = (row_tuples d [''group''] ! i = row_tuples d [''group''] ! j))
     \<and> set (vals ?g) = (\<lambda>k. IntV (int k)) ` {1..card (set (row_tuples d [''group'']))}"
      by (rule group_ids_partition) (rule refl)
    show "add_group d = Inr (d\<lparr>cols := put_assoc ''group'' ?g (cols d)\<rparr>)" by (rule a)
    show "length (vals ?g) = nrows d" using gp by blast
    show "\<forall>i<nrows d. \<forall>j<nrows d.
          (vals ?g ! i = vals ?g ! j)
            = (row_tuples d [''group''] ! i = row_tuples d [''group''] ! j)"
      using gp by blast
    show "set (vals ?g) = (\<lambda>k. IntV (int k)) ` {1..card (set (row_tuples d [''group'']))}"
      using gp by blast
  qed
qed


lemmas frame_eval = add_group_def colnames_def discrete_columns_def DISCRETE_KINDS_def
  row_tuples_def row_tuple_def selected_columns_def List.map_filter_simps getcol_def
  ninteraction_def id_column_def put_col_def

theorem add_group_partition_witness:
  "wf_frame frame_abc \<and> 0 < nrows frame_abc \<and> ''group'' \<notin> set (colnames frame_abc)
   \<and> (\<exists>disc g. discrete_columns frame_abc [''label''] = Inr disc
           \<and> add_group frame_abc = Inr (frame_abc\<lparr>cols := cols frame_abc @ [(''group'', g)]\<rparr>)
           \<and> length (vals g) = nrows frame_abc
           \<and> (\<forall>i<nrows frame_abc. \<forall>j<nrows frame_abc.
                (vals g ! i = vals g ! j)
                  = (row_tuples frame_abc disc ! i = row_tuples frame_abc disc ! j))
           \<and> (disc \<noteq> [] \<longrightarrow>
                set (vals g) = (\<lambda>k. IntV (int k)) ` {1..card (set (row_tuples frame_abc disc))})
           \<and> (disc = [] \<longrightarrow> vals g = replicate (nrows frame_abc) (IntV NO_GROUP)))
   \<and> add_group frame_abc = Inr (frame_abc\<lparr>cols := cols frame_abc
          @ [(''group'', \<lparr>kind = CHR ''i'', vals = [IntV 1, IntV 2, IntV 1]\<rparr>)]\<rparr>)"
proof -
  have wf: "wf_frame frame_abc" by (simp add: wf_frame_def frame_abc_def colnames_def)
  have pos: "0 < nrows frame_abc" by (simp add: frame_abc_def)
  have ng: "''group'' \<notin> set (colnames frame_abc)" by (simp add: frame_abc_def colnames_def)
  have v: "add_group frame_abc = Inr (frame_abc\<lparr>cols := cols frame_abc
          @ [(''group'', \<lparr>kind = CHR ''i'', vals = [IntV 1, IntV 2, IntV 1]\<rparr>)]\<rparr>)"
    by (simp add: frame_abc_def frame_eval eval_nat_numeral)
  show ?thesis using add_group_partition [OF wf] wf pos ng v by blast
qed

text \<open>
  The claim as stated covers every dataset. In \<open>frame_grouped\<close> the discrete columns
  selected by \<^verbatim>\<open>discrete_columns\<close> are \<open>colour\<close> alone, the two rows agree on it, and
  they receive the different ids 1 and 2 from the \<open>group\<close> column.
\<close>

theorem add_group_explicit_group_counterexample:
  "wf_frame frame_grouped
   \<and> discrete_columns frame_grouped [''label''] = Inr [''colour'']
   \<and> row_tuples frame_grouped [''colour''] ! 0 = row_tuples frame_grouped [''colour''] ! 1
   \<and> add_group frame_grouped = Inr (frame_grouped\<lparr>cols :=
         [(''group'', \<lparr>kind = CHR ''i'', vals = [IntV 1, IntV 2]\<rparr>),
          (''colour'', \<lparr>kind = CHR ''O'', vals = [StrV ''a'', StrV ''a'']\<rparr>)]\<rparr>)"
  by (simp add: frame_grouped_def wf_frame_def frame_eval eval_nat_numeral)

section \<open>Properties of the pipeline stages\<close>

lemma compute_aesthetics_loop_append:
  "compute_aesthetics_loop env d st (pre @ item # post) =
     (case compute_aesthetics_loop env d st pre of
        Inl e \<Rightarrow> Inl e
      | Inr st' \<Rightarrow>
          (case compute_aesthetics_step env d st' item of
             Inl e \<Rightarrow> Inl e
           | Inr st'' \<Rightarrow> compute_aesthetics_loop env d st'' post))"
  by (induction pre arbitrary: st) (auto split: sum.splits)

text \<open>
  Claim C3. Let the dataset of the layer have \<open>N > 0\<close> rows and let an aesthetic of the
  active mapping be a vector whose length is neither \<open>N\<close> nor 1. When the loop reaches
  that aesthetic, that is, when the aesthetics before it in the mapping have been
  resolved, \<^verbatim>\<open>compute_aesthetics\<close> raises the GgplotError of the length mismatch. A vector
  of length 3 against five rows is the witness.
\<close>

theorem compute_aesthetics_length_mismatch:
  assumes "0 < nrows (data l)"
    and "snd (override_group (layer_mapping l (plot_mapping p))) = pre @ (ae, AList v) # post"
    and "compute_aesthetics_loop (environment p) (data l)
           (frame_with_index_of (data l), False) pre = Inr st"
    and "length v \<noteq> nrows (data l)" and "length v \<noteq> 1"
  shows "compute_aesthetics l p = Inl (GgplotError LengthMismatch)"
proof -
  obtain evaled has where st: "st = (evaled, has)" by (cases st)
  have "compute_aesthetics_step (environment p) (data l) st (ae, AList v)
      = Inl (GgplotError LengthMismatch)"
    using assms(1,4,5) by (simp add: st)
  then have "compute_aesthetics_loop (environment p) (data l)
      (frame_with_index_of (data l), False) (pre @ (ae, AList v) # post)
      = Inl (GgplotError LengthMismatch)"
    by (simp add: compute_aesthetics_loop_append assms(3))
  then show ?thesis
    by (simp add: compute_aesthetics_def assms(2))
qed

theorem compute_aesthetics_length_mismatch_witness:
  "0 < nrows (data (layer_over frame5 [(''x'', AList [IntV 1, IntV 2, IntV 3])]))
   \<and> length [IntV 1, IntV 2, IntV 3] \<noteq> nrows (data (layer_over frame5 [(''x'', AList [IntV 1, IntV 2, IntV 3])]))
   \<and> length [IntV 1, IntV 2, IntV 3] \<noteq> 1
   \<and> compute_aesthetics (layer_over frame5 [(''x'', AList [IntV 1, IntV 2, IntV 3])]) plot0
       = Inl (GgplotError LengthMismatch)"
proof -
  let ?l = "layer_over frame5 [(''x'', AList [IntV 1, IntV 2, IntV 3])]"
  have a: "snd (override_group (layer_mapping ?l (plot_mapping plot0)))
      = [] @ (''x'', AList [IntV 1, IntV 2, IntV 3]) # []"
    by code_simp
  have n: "0 < nrows (data ?l)" "length [IntV 1, IntV 2, IntV 3] \<noteq> nrows (data ?l)"
    by (simp_all add: layer_over_def frame5_def)
  show ?thesis
    using compute_aesthetics_length_mismatch [OF n(1) a _ n(2), of "(frame_with_index_of (data ?l), False)"] n
    by simp
qed

text \<open>
  Claim C5. Let an aesthetic of the active mapping be a string that names no column of
  the dataset and whose evaluation in the environment of the plot, over the columns of
  the dataset, fails. When the loop reaches that aesthetic, \<^verbatim>\<open>compute_aesthetics\<close> raises
  the GgplotError of the failed evaluation, which carries the name of the aesthetic, the
  text of the expression and the text of the cause.
\<close>

theorem compute_aesthetics_eval_failure:
  assumes "snd (override_group (layer_mapping l (plot_mapping p))) = pre @ (ae, AStr col) # post"
    and "compute_aesthetics_loop (environment p) (data l)
           (frame_with_index_of (data l), False) pre = Inr st"
    and "col \<notin> set (colnames (data l))"
    and "environment p col (data l) = Inl cause"
  shows "compute_aesthetics l p = Inl (GgplotError (EvalFail ae col cause))"
proof -
  obtain evaled has where st: "st = (evaled, has)" by (cases st)
  have "getcol (data l) col = None"
    using assms(3) by (simp add: getcol_def colnames_def map_of_eq_None_iff)
  then have "compute_aesthetics_step (environment p) (data l) st (ae, AStr col)
      = Inl (GgplotError (EvalFail ae col cause))"
    using assms(4) by (simp add: st)
  then have "compute_aesthetics_loop (environment p) (data l)
      (frame_with_index_of (data l), False) (pre @ (ae, AStr col) # post)
      = Inl (GgplotError (EvalFail ae col cause))"
    by (simp add: compute_aesthetics_loop_append assms(2))
  then show ?thesis
    by (simp add: compute_aesthetics_def assms(1))
qed

theorem compute_aesthetics_eval_failure_witness:
  "''nosuch'' \<notin> set (colnames (data (layer_over frame5 [(''y'', AStr ''nosuch'')])))
   \<and> environment plot0 ''nosuch'' (data (layer_over frame5 [(''y'', AStr ''nosuch'')]))
       = Inl ''name nosuch is not defined''
   \<and> compute_aesthetics (layer_over frame5 [(''y'', AStr ''nosuch'')]) plot0
       = Inl (GgplotError (EvalFail ''y'' ''nosuch'' ''name nosuch is not defined''))"
proof -
  let ?l = "layer_over frame5 [(''y'', AStr ''nosuch'')]"
  have a: "snd (override_group (layer_mapping ?l (plot_mapping plot0)))
      = [] @ (''y'', AStr ''nosuch'') # []"
    by code_simp
  have c: "''nosuch'' \<notin> set (colnames (data ?l))"
    by (simp add: layer_over_def frame5_def colnames_def)
  have e: "environment plot0 ''nosuch'' (data ?l) = Inl ''name nosuch is not defined''"
    by (simp add: plot0_def)
  show ?thesis
    using compute_aesthetics_eval_failure [OF a _ c e, of "(frame_with_index_of (data ?l), False)"] c e
    by simp
qed

section \<open>Mapping aesthetics to computed statistics\<close>

lemma is_calculated_aes_y_count: "is_calculated_aes [(''y'', AStr ''..count..'')] = [''y'']"
  by code_simp

lemma strip_dots_count: "strip_dots ''..count..'' = ''count''" by code_simp

text \<open>
  Claim C7. The dataset has the distinct columns \<open>x\<close>, \<open>y\<close> and \<open>count\<close>, and \<open>y\<close> is
  mapped to \<open>..count..\<close>. The stripped name differs from the aesthetic, so a column
  \<open>y\<close> is put into \<open>stat_data\<close>, and the concatenation yields the columns \<open>x\<close>, \<open>y\<close>,
  \<open>count\<close>, \<open>y\<close>: the name \<open>y\<close> twice.
\<close>

theorem map_statistic_duplicate_column:
  "distinct (colnames (data (layer_over frame_stat [(''y'', AStr ''..count..'')])))
   \<and> nrows (data (layer_over frame_stat [(''y'', AStr ''..count..'')])) = 2
   \<and> (case map_statistic (layer_over frame_stat [(''y'', AStr ''..count..'')]) plot0 of
        Inl e \<Rightarrow> False
      | Inr (l', sc, r) \<Rightarrow> colnames (data l') = [''x'', ''y'', ''count'', ''y'']
                         \<and> \<not> distinct (colnames (data l')))"
  by (simp add: map_statistic_def layer_over_def plot0_def stat0_def frame_stat_def is_calculated_aes_y_count strip_dots_count
      put_col_def getcol_def empty_frame_def grow_def concat_columns_def colnames_def reindex_def Let_def defaults_def)

section \<open>Properties of the copy of a layer\<close>

lemma deepcopy_step:
  assumes "deepcopy h memo a = (h1, memo1, c)"
    and "copy_inv hp slf result h memo" and "a < limit hp"
  shows "copy_inv hp slf result h1 memo1 \<and> limit h \<le> limit h1
       \<and> (\<forall>x<limit h. cells h1 x = cells h x)
       \<and> ((a = slf \<and> c = result)
          \<or> (\<exists>v. cells hp a = Some (Immutable v) \<and> c = a)
          \<or> (limit hp < c \<and> c < limit h1 \<and> cells h1 c = cells hp a))"
proof (cases "memo a")
  case (Some y)
  then have e: "h1 = h" "memo1 = memo" "c = y" using assms(1) by (simp_all add: deepcopy_def)
  have "(a = slf \<and> y = result) \<or> (limit hp < y \<and> y < limit h \<and> cells h y = cells hp a)"
    using assms(2) Some unfolding copy_inv_def by blast
  then show ?thesis using assms(2) e by auto
next
  case None
  have ca: "cells h a = cells hp a" using assms(2,3) unfolding copy_inv_def by blast
  show ?thesis
  proof (cases "\<exists>v. cells h a = Some (Immutable v)")
    case True
    then obtain v where v: "cells h a = Some (Immutable v)" by blast
    then have e: "h1 = h" "memo1 = memo" "c = a" using assms(1) None by (simp_all add: deepcopy_def)
    show ?thesis using assms(2) e v ca by auto
  next
    case False
    then have e: "h1 = h\<lparr>cells := (cells h)(limit h := cells h a), limit := Suc (limit h)\<rparr>"
      "memo1 = memo(a \<mapsto> limit h)" "c = limit h"
      using assms(1) None
      by (auto simp: deepcopy_def Let_def split: option.splits pyobj.splits)
    have lt: "limit hp < limit h" using assms(2) unfolding copy_inv_def by blast
    have inv: "copy_inv hp slf result h1 memo1"
      unfolding copy_inv_def
    proof (intro conjI allI impI)
      show "limit hp < limit h1" using lt e by simp
      fix x assume "x < limit hp"
      then show "cells h1 x = cells hp x" using assms(2) lt e unfolding copy_inv_def by simp
    next
      fix x y assume m: "memo1 x = Some y"
      show "(x = slf \<and> y = result) \<or> (limit hp < y \<and> y < limit h1 \<and> cells h1 y = cells hp x)"
      proof (cases "x = a")
        case True
        then have "y = limit h" using m e by simp
        then show ?thesis using True e lt ca by simp
      next
        case False
        then have "memo x = Some y" using m e by simp
        then have "(x = slf \<and> y = result) \<or> (limit hp < y \<and> y < limit h \<and> cells h y = cells hp x)"
          using assms(2) unfolding copy_inv_def by blast
        then show ?thesis using e by auto
      qed
    qed
    show ?thesis using inv e lt ca by simp
  qed
qed

lemma deepcopy_items_inv:
  assumes "deepcopy_items h memo items = (h', memo', new)"
    and "copy_inv hp slf result h memo"
    and "\<forall>item \<in> set items. snd item < limit hp"
  shows "copy_inv hp slf result h' memo' \<and> limit h \<le> limit h'
       \<and> (\<forall>x<limit h. cells h' x = cells h x)
       \<and> list_all2 (field_copied hp h' slf result) items new"
  using assms
proof (induction items arbitrary: h memo h' memo' new)
  case Nil
  then show ?case by simp
next
  case (Cons it items)
  obtain key a where it: "it = (key, a)" by (cases it)
  have a: "a < limit hp" using Cons.prems(3) it by simp
  have rest: "\<forall>item \<in> set items. snd item < limit hp" using Cons.prems(3) by simp
  show ?case
  proof (cases "key = ''data''")
    case True
    obtain new0 where r: "deepcopy_items h memo items = (h', memo', new0)" and n: "new = (key, a) # new0"
      using Cons.prems(1) it True by (auto split: prod.splits)
    have ih: "copy_inv hp slf result h' memo' \<and> limit h \<le> limit h'
       \<and> (\<forall>x<limit h. cells h' x = cells h x)
       \<and> list_all2 (field_copied hp h' slf result) items new0"
      using Cons.IH[OF r Cons.prems(2) rest] .
    have "field_copied hp h' slf result (key, a) (key, a)"
      using True by (simp add: field_copied_def)
    then show ?thesis using ih it n by simp
  next
    case False
    obtain h1 memo1 c new0 where d: "deepcopy h memo a = (h1, memo1, c)"
      and r: "deepcopy_items h1 memo1 items = (h', memo', new0)" and n: "new = (key, c) # new0"
      using Cons.prems(1) it False by (auto split: prod.splits)
    have st: "copy_inv hp slf result h1 memo1 \<and> limit h \<le> limit h1
       \<and> (\<forall>x<limit h. cells h1 x = cells h x)
       \<and> ((a = slf \<and> c = result)
          \<or> (\<exists>v. cells hp a = Some (Immutable v) \<and> c = a)
          \<or> (limit hp < c \<and> c < limit h1 \<and> cells h1 c = cells hp a))"
      using deepcopy_step[OF d Cons.prems(2) a] .
    have ih: "copy_inv hp slf result h' memo' \<and> limit h1 \<le> limit h'
       \<and> (\<forall>x<limit h1. cells h' x = cells h1 x)
       \<and> list_all2 (field_copied hp h' slf result) items new0"
      using Cons.IH[OF r _ rest] st by blast
    have f: "field_copied hp h' slf result (key, a) (key, c)"
      using False st ih by (auto simp: field_copied_def)
    have fr: "\<forall>x<limit h. cells h' x = cells h x" using st ih by auto
    show ?thesis using ih st f fr it n by auto
  qed
qed


lemma field_copied_keys:
  "list_all2 (field_copied hp hp' slf result) old new \<Longrightarrow>
   map fst new = map fst old \<and> (\<forall>a. (''data'', a) \<in> set old \<longrightarrow> (''data'', a) \<in> set new)"
proof (induction rule: list_all2_induct)
  case Nil
  then show ?case by simp
next
  case (Cons x xs y ys)
  obtain k a where x: "x = (k, a)" by (cases x)
  obtain k' b where y: "y = (k', b)" by (cases y)
  have "k' = k" and "k = ''data'' \<longrightarrow> b = a"
    using Cons.hyps(1) x y by (auto simp: field_copied_def)
  then show ?case using Cons.IH x y by auto
qed

text \<open>
  Claim C9. A deep copy of a layer (\<^verbatim>\<open>copy.deepcopy(layer)\<close>, which calls
  \<^verbatim>\<open>__deepcopy__\<close> with an empty memo) yields an instance with the same attribute names
  whose \<open>data\<close> attribute is the very same object as the original's. Every other
  attribute is a duplicate that shares no mutable object with the original: it is a new
  object with the content of the original's (an immutable object is kept, as
  \<^verbatim>\<open>deepcopy\<close> does, and a reference back to the layer becomes a reference to the
  copy). No object of the original is changed.
\<close>

theorem layer_deepcopy_shares_data:
  assumes "layer_deepcopy hp Map.empty slf old = (hp', memo', result, new)"
    and "\<forall>item \<in> set old. snd item < limit hp"
  shows "map fst new = map fst old
       \<and> (\<forall>a. (''data'', a) \<in> set old \<longrightarrow> (''data'', a) \<in> set new \<and> cells hp' a = cells hp a)
       \<and> list_all2 (field_copied hp hp' slf result) old new
       \<and> (\<forall>x<limit hp. cells hp' x = cells hp x)
       \<and> result = limit hp"
proof -
  let ?h0 = "hp\<lparr>limit := Suc (limit hp)\<rparr>"
  let ?m0 = "Map.empty(slf \<mapsto> limit hp)"
  have r: "result = limit hp" and d: "deepcopy_items ?h0 ?m0 old = (hp', memo', new)"
    using assms(1) by (auto simp: layer_deepcopy_def Let_def split: prod.splits)
  have inv: "copy_inv hp slf result ?h0 ?m0"
    by (simp add: copy_inv_def r)
  have main: "copy_inv hp slf result hp' memo' \<and> limit ?h0 \<le> limit hp'
       \<and> (\<forall>x<limit ?h0. cells hp' x = cells ?h0 x)
       \<and> list_all2 (field_copied hp hp' slf result) old new"
    using deepcopy_items_inv[OF d inv assms(2)] .
  then have la: "list_all2 (field_copied hp hp' slf result) old new" by blast
  have fr: "\<forall>x<limit hp. cells hp' x = cells hp x" using main by auto
  have keys: "map fst new = map fst old"
    and dat: "\<forall>a. (''data'', a) \<in> set old \<longrightarrow> (''data'', a) \<in> set new"
    using field_copied_keys[OF la] by blast+
  have "\<forall>a. (''data'', a) \<in> set old \<longrightarrow> (''data'', a) \<in> set new \<and> cells hp' a = cells hp a"
  proof (intro allI impI)
    fix a assume m: "(''data'', a) \<in> set old"
    then have "a < limit hp" using assms(2) by force
    then show "(''data'', a) \<in> set new \<and> cells hp' a = cells hp a" using dat fr m by blast
  qed
  then show ?thesis using keys la fr r by blast
qed

theorem layer_deepcopy_shares_data_witness:
  "list_all (\<lambda>item. snd item < limit heap3) dict3
   \<and> list_all2 (field_copied heap3 (fst (layer_deepcopy heap3 Map.empty 0 dict3)) 0
        (fst (snd (snd (layer_deepcopy heap3 Map.empty 0 dict3)))))
        dict3 (snd (snd (snd (layer_deepcopy heap3 Map.empty 0 dict3))))
   \<and> snd (snd (layer_deepcopy heap3 Map.empty 0 dict3))
       = (4, [(''geom'', 5), (''data'', 1), (''inherit_aes'', 3)])"
proof -
  have h: "\<forall>item \<in> set dict3. snd item < limit heap3" by (simp add: dict3_def heap3_def)
  have e: "layer_deepcopy heap3 Map.empty 0 dict3
      = (fst (layer_deepcopy heap3 Map.empty 0 dict3),
         fst (snd (layer_deepcopy heap3 Map.empty 0 dict3)),
         fst (snd (snd (layer_deepcopy heap3 Map.empty 0 dict3))),
         snd (snd (snd (layer_deepcopy heap3 Map.empty 0 dict3))))"
    by simp
  have v: "snd (snd (layer_deepcopy heap3 Map.empty 0 dict3))
       = (4, [(''geom'', 5), (''data'', 1), (''inherit_aes'', 3)])"
    by (simp add: layer_deepcopy_def heap3_def dict3_def deepcopy_def Let_def)
  have h': "list_all (\<lambda>item. snd item < limit heap3) dict3"
    by (simp add: dict3_def heap3_def)
  show ?thesis using layer_deepcopy_shares_data [OF e h] h' v by blast
qed

section \<open>Properties of the resolved dataset\<close>

lemma map_of_put_assoc: "map_of (put_assoc k v xs) = (map_of xs)(k \<mapsto> v)"
  by (induction xs) (auto simp: fun_eq_iff)

lemma getcol_put_col: "getcol (put_col name c d) m = (if m = name then Some c else getcol d m)"
  by (simp add: getcol_def put_col_def map_of_put_assoc)

lemma nrows_put_col: "nrows (put_col name c d) = nrows d"
  by (simp add: put_col_def)

lemma vals_scalar_column: "vals ((infer_column [v])\<lparr>vals := replicate n v\<rparr>) = replicate n v"
  by simp

lemma bit_count_le: "n < 2 ^ k \<Longrightarrow> bit_count n \<le> k"
  unfolding bit_count_def by (rule floorlog_leI) simp_all

lemma bit_count_tie: "bit_count 9007199254740993 = 54"
proof -
  have "bit_count 9007199254740993 \<le> 54" by (rule bit_count_le) simp
  moreover have "Suc 53 \<le> floorlog 2 9007199254740993" by (rule floorlog_ge_SucI) simp_all
  ultimately show ?thesis by (simp add: bit_count_def)
qed

lemma round_binary64_small:
  assumes "\<bar>i\<bar> < 2 ^ 53"
  shows "round_binary64 i = i"
proof -
  have "nat \<bar>i\<bar> < 2 ^ 53" using assms by (simp add: nat_less_iff)
  then have "bit_count (nat \<bar>i\<bar>) \<le> 53" by (rule bit_count_le)
  then have "bit_count (nat \<bar>i\<bar>) - 53 = 0" by simp
  then have "round_binary64 i = sgn i * \<bar>i\<bar>" by (simp add: round_binary64_def Let_def)
  then show ?thesis by (simp add: mult_sgn_abs)
qed

lemma round_binary64_tie: "round_binary64 9007199254740993 = 9007199254740992"
  by (simp add: round_binary64_def Let_def bit_count_tie)

lemma to_float_small: "\<bar>i\<bar> < 2 ^ 53 \<Longrightarrow> to_float (IntV i) = FloatV (of_int i)"
  by (simp add: round_binary64_small)

lemma kind_infer_single: "(kind (infer_column [v]) = CHR ''i'') = is_int64 v"
  by (cases v) (simp_all add: infer_column_def)

lemma assigned_scalar: "\<not> is_list v \<Longrightarrow> assigned v = Scalar v"
  by (cases v) simp_all

lemma setitem_nonempty:
  assumes "0 < nrows d" "setitem d name pv = Inr d'"
  shows "nrows d' = nrows d \<and> (\<forall>m. m \<noteq> name \<longrightarrow> getcol d' m = getcol d m)"
  using assms by (cases pv) (auto simp: getcol_put_col nrows_put_col split: if_splits)

lemma setitem_scalar:
  "setitem d name (Scalar v) = Inr d' \<Longrightarrow>
   nrows d' = nrows d \<and> (\<forall>m. m \<noteq> name \<longrightarrow> getcol d' m = getcol d m)
   \<and> getcol d' name = Some ((infer_column [v])\<lparr>vals := replicate (nrows d) v\<rparr>)"
  by (auto simp: getcol_put_col nrows_put_col)

lemma step_setitem:
  assumes "compute_aesthetics_step env d (evaled, has) (ae, av) = Inr (evaled', has')"
  shows "\<exists>pv. setitem evaled ae pv = Inr evaled'"
proof (cases av)
  case (AStr s)
  then show ?thesis using assms
    by (auto simp del: setitem.simps split: option.splits sum.splits)
next
  case (AList col)
  then show ?thesis using assms
    by (auto simp: Let_def simp del: setitem.simps split: if_splits sum.splits)
next
  case (ANum v)
  then show ?thesis using assms by (auto simp del: setitem.simps split: sum.splits)
next
  case AOther
  then show ?thesis using assms by simp
qed

lemma step_nonempty:
  assumes "0 < nrows d" "nrows evaled = nrows d"
    and "compute_aesthetics_step env d (evaled, has) (ae, av) = Inr (evaled', has')"
  shows "nrows evaled' = nrows d \<and> (\<forall>m. m \<noteq> ae \<longrightarrow> getcol evaled' m = getcol evaled m)"
proof -
  obtain pv where s: "setitem evaled ae pv = Inr evaled'"
    using step_setitem[OF assms(3)] by blast
  have "0 < nrows evaled" using assms(1,2) by simp
  then show ?thesis using setitem_nonempty[OF _ s] assms(2) by simp
qed

lemma step_single_vector:
  assumes "\<not> is_list v"
  shows "compute_aesthetics_step env d (evaled, has) (ae, AList [v])
     = Inr (put_col ae ((infer_column [v])\<lparr>vals := replicate (nrows evaled) v\<rparr>) evaled, True)"
  using assms by (simp add: Let_def assigned_scalar)

lemma loop_nonempty_keeps:
  assumes "0 < nrows d" "nrows evaled = nrows d"
    and "compute_aesthetics_loop env d (evaled, has) items = Inr (evaled', has')"
    and "ae \<notin> set (map fst items)"
  shows "nrows evaled' = nrows d \<and> getcol evaled' ae = getcol evaled ae"
  using assms
proof (induction items arbitrary: evaled has)
  case Nil
  then show ?case by simp
next
  case (Cons it items)
  obtain k av where it: "it = (k, av)" by (cases it)
  obtain e1 h1 where s: "compute_aesthetics_step env d (evaled, has) (k, av) = Inr (e1, h1)"
    and r: "compute_aesthetics_loop env d (e1, h1) items = Inr (evaled', has')"
    using Cons.prems(3) it by (auto split: sum.splits)
  have st: "nrows e1 = nrows d \<and> (\<forall>m. m \<noteq> k \<longrightarrow> getcol e1 m = getcol evaled m)"
    using step_nonempty[OF Cons.prems(1,2) s] .
  have "ae \<noteq> k" "ae \<notin> set (map fst items)" using Cons.prems(4) it by auto
  then show ?case using Cons.IH[OF Cons.prems(1) _ r] st by auto
qed

lemma loop_single_vector:
  assumes "0 < nrows d" "nrows evaled = nrows d"
    and "compute_aesthetics_loop env d (evaled, has) items = Inr (evaled', has')"
    and "distinct (map fst items)" and "(ae, AList [v]) \<in> set items" and "\<not> is_list v"
  shows "nrows evaled' = nrows d
       \<and> getcol evaled' ae = Some ((infer_column [v])\<lparr>vals := replicate (nrows d) v\<rparr>)"
  using assms
proof (induction items arbitrary: evaled has)
  case Nil
  then show ?case by simp
next
  case (Cons it items)
  obtain k av where it: "it = (k, av)" by (cases it)
  obtain e1 h1 where s: "compute_aesthetics_step env d (evaled, has) (k, av) = Inr (e1, h1)"
    and r: "compute_aesthetics_loop env d (e1, h1) items = Inr (evaled', has')"
    using Cons.prems(3) it by (auto split: sum.splits)
  have st: "nrows e1 = nrows d \<and> (\<forall>m. m \<noteq> k \<longrightarrow> getcol e1 m = getcol evaled m)"
    using step_nonempty[OF Cons.prems(1,2) s] .
  show ?case
  proof (cases "it = (ae, AList [v])")
    case True
    then have k: "k = ae" "av = AList [v]" using it by auto
    have notin: "ae \<notin> set (map fst items)" using Cons.prems(4) it k by simp
    have c: "getcol e1 ae = Some ((infer_column [v])\<lparr>vals := replicate (nrows d) v\<rparr>)"
      using step_single_vector[OF Cons.prems(6), of env d evaled has ae] s k Cons.prems(2)
      by (auto simp: getcol_put_col)
    show ?thesis using loop_nonempty_keeps[OF Cons.prems(1) _ r notin] st c by simp
  next
    case False
    then have "(ae, AList [v]) \<in> set items" using Cons.prems(5) by simp
    moreover have "distinct (map fst items)" using Cons.prems(4) by simp
    ultimately show ?thesis using Cons.IH[OF Cons.prems(1) _ r] st Cons.prems(6) by simp
  qed
qed

lemma loop_flag:
  "compute_aesthetics_loop env d (evaled, has) items = Inr (evaled', has') \<Longrightarrow>
   has' = (has \<or> (\<exists>ae v. (ae, AList v) \<in> set items))"
proof (induction items arbitrary: evaled has)
  case Nil
  then show ?case by simp
next
  case (Cons it items)
  obtain k av where it: "it = (k, av)" by (cases it)
  obtain e1 h1 where s: "compute_aesthetics_step env d (evaled, has) (k, av) = Inr (e1, h1)"
    and r: "compute_aesthetics_loop env d (e1, h1) items = Inr (evaled', has')"
    using Cons.prems it by (auto split: sum.splits)
  have "h1 = (has \<or> (\<exists>v. av = AList v))"
    using s by (cases av) (auto simp: Let_def split: option.splits sum.splits if_splits)
  then show ?case using Cons.IH[OF r] it by auto
qed

lemma getcol_cast:
  "getcol (cast_int_columns d) m
     = map_option (\<lambda>c. if kind c = CHR ''i'' then astype_float c else c) (getcol d m)"
proof -
  have "\<And>xs. map_of (map (\<lambda>(name, c). (name, if kind c = CHR ''i'' then astype_float c else c)) xs) m
      = map_option (\<lambda>c. if kind c = CHR ''i'' then astype_float c else c) (map_of xs m)"
    subgoal for xs by (induction xs) auto
    done
  then show ?thesis by (simp add: getcol_def cast_int_columns_def)
qed

lemma nrows_cast: "nrows (cast_int_columns d) = nrows d"
  by (simp add: cast_int_columns_def)

lemma add_group_frame:
  "add_group d = Inr d' \<Longrightarrow>
   nrows d' = nrows d \<and> (\<forall>m. m \<noteq> ''group'' \<longrightarrow> getcol d' m = getcol d m)"
  by (auto simp: add_group_def getcol_put_col nrows_put_col split: if_splits sum.splits)

lemma reindex_same: "length (vals c) = n \<Longrightarrow> reindex n c = c"
  by (simp add: reindex_def)

lemma nrows_grow: "nrows (grow n d) = n"
  by (simp add: grow_def)

lemma set_panel_result:
  assumes "set_panel d has evaled = Inr evaled'"
  shows "(\<forall>m. 0 < nrows evaled \<longrightarrow> m \<noteq> ''PANEL'' \<longrightarrow> getcol evaled' m = getcol evaled m)
       \<and> (0 < nrows evaled \<longrightarrow> nrows evaled' = nrows evaled)
       \<and> (nrows d = 0 \<and> has \<longrightarrow>
            nrows evaled' = nrows evaled \<and>
            (\<exists>c. getcol evaled' ''PANEL'' = Some c \<and> vals c = replicate (nrows evaled') (IntV 1)))
       \<and> (\<not> (nrows d = 0 \<and> has) \<longrightarrow>
            (\<exists>c. getcol d ''PANEL'' = Some c
                \<and> getcol evaled' ''PANEL'' = Some (reindex (nrows evaled') c)))"
proof (cases "nrows d = 0 \<and> has")
  case True
  then have e: "evaled' = put_col ''PANEL''
      ((infer_column [IntV 1])\<lparr>vals := replicate (nrows evaled) (IntV 1)\<rparr>) evaled"
    using assms by (auto simp: set_panel_def)
  show ?thesis using True unfolding e by (simp add: getcol_put_col nrows_put_col)
next
  case False
  then obtain c where c: "getcol d ''PANEL'' = Some c"
    and s: "setitem evaled ''PANEL'' (Series c) = Inr evaled'"
    using assms by (auto simp: set_panel_def split: option.splits sum.splits)
  show ?thesis
  proof (cases "nrows evaled = 0")
    case True
    then have e: "evaled' = put_col ''PANEL'' c (grow (length (vals c)) evaled)"
      using s by simp
    show ?thesis using False True c unfolding e
      by (auto simp: getcol_put_col nrows_put_col nrows_grow reindex_same)
  next
    case nz: False
    then have e: "evaled' = put_col ''PANEL'' (reindex (nrows evaled) c) evaled"
      using s by simp
    show ?thesis using False nz c unfolding e
      by (auto simp: getcol_put_col nrows_put_col)
  qed
qed


lemma compute_aesthetics_success:
  assumes "compute_aesthetics l p = Inr (l', sc)"
  shows "\<exists>evaled has evaled2.
      compute_aesthetics_loop (environment p) (data l) (frame_with_index_of (data l), False)
        (snd (override_group (layer_mapping l (plot_mapping p)))) = Inr (evaled, has)
    \<and> set_panel (data l) has (cast_int_columns evaled) = Inr evaled2
    \<and> add_group evaled2 = Inr (data l')"
  using assms
  by (auto simp: compute_aesthetics_def Let_def split: sum.splits prod.splits)

lemma cast_scalar_column:
  "vals (if kind ((infer_column [v])\<lparr>vals := replicate n v\<rparr>) = CHR ''i''
         then astype_float ((infer_column [v])\<lparr>vals := replicate n v\<rparr>)
         else (infer_column [v])\<lparr>vals := replicate n v\<rparr>)
     = replicate n (if is_int64 v then to_float v else v)"
  by (simp add: kind_infer_single astype_float_def)

lemma loop_nrows_nonempty:
  assumes "0 < nrows d" "nrows evaled = nrows d"
    and "compute_aesthetics_loop env d (evaled, has) items = Inr (evaled', has')"
  shows "nrows evaled' = nrows d"
  using assms
proof (induction items arbitrary: evaled has)
  case Nil
  then show ?case by simp
next
  case (Cons it items)
  obtain k av where it: "it = (k, av)" by (cases it)
  obtain e1 h1 where s: "compute_aesthetics_step env d (evaled, has) (k, av) = Inr (e1, h1)"
    and r: "compute_aesthetics_loop env d (e1, h1) items = Inr (evaled', has')"
    using Cons.prems(3) it by (auto split: sum.splits)
  have "nrows e1 = nrows d" using step_nonempty[OF Cons.prems(1,2) s] by blast
  then show ?case using Cons.IH[OF Cons.prems(1) _ r] by simp
qed

text \<open>
  Claim C4, as amended. Let the dataset of the layer have \<open>N > 0\<close> rows, and let an
  aesthetic of the active mapping be the one-element vector \<open>[v]\<close> whose element \<open>v\<close> is
  not itself a list. When the loop reaches that aesthetic, its round does not fail: the
  vector is unwrapped and \<open>v\<close> is stored as a column of \<open>N\<close> rows with \<open>v\<close> in every row.
  Whenever the whole loop ends without an error, the frame of resolved columns has \<open>N\<close>
  rows and still holds that column. The dataset that \<^verbatim>\<open>compute_aesthetics\<close> leaves in the
  layer has \<open>N\<close> rows and holds, for every aesthetic but \<open>group\<close> and \<open>PANEL\<close>, a column
  with one value in every row: \<open>v\<close> itself, or the floating-point number that an int64
  integer \<open>v\<close> is cast to.
\<close>

theorem compute_aesthetics_broadcast:
  assumes "0 < nrows (data l)"
    and "snd (override_group (layer_mapping l (plot_mapping p))) = pre @ (ae, AList [v]) # post"
    and "distinct (map fst (pre @ (ae, AList [v]) # post))"
    and "compute_aesthetics_loop (environment p) (data l) (frame_with_index_of (data l), False) pre
           = Inr (e0, h0)"
    and "\<not> is_list v"
  shows "(\<exists>e1. compute_aesthetics_step (environment p) (data l) (e0, h0) (ae, AList [v])
               = Inr (e1, True)
             \<and> nrows e1 = nrows (data l)
             \<and> (\<exists>c. getcol e1 ae = Some c \<and> vals c = replicate (nrows (data l)) v))
       \<and> (\<forall>evaled has.
             compute_aesthetics_loop (environment p) (data l) (frame_with_index_of (data l), False)
               (pre @ (ae, AList [v]) # post) = Inr (evaled, has) \<longrightarrow>
             nrows evaled = nrows (data l)
           \<and> (\<exists>c. getcol evaled ae = Some c \<and> vals c = replicate (nrows (data l)) v))
       \<and> (\<forall>l' sc. compute_aesthetics l p = Inr (l', sc) \<longrightarrow> ae \<noteq> ''PANEL'' \<longrightarrow> ae \<noteq> ''group'' \<longrightarrow>
             nrows (data l') = nrows (data l)
           \<and> (\<exists>c. getcol (data l') ae = Some c
                  \<and> vals c = replicate (nrows (data l)) (if is_int64 v then to_float v else v)))"
proof -
  let ?A = "pre @ (ae, AList [v]) # post"
  let ?N = "nrows (data l)"
  let ?c = "(infer_column [v])\<lparr>vals := replicate ?N v\<rparr>"
  have i: "nrows (frame_with_index_of (data l)) = ?N" by (simp add: frame_with_index_of_def)
  have n0: "nrows e0 = ?N" using loop_nrows_nonempty[OF assms(1) i assms(4)] .
  have st: "compute_aesthetics_step (environment p) (data l) (e0, h0) (ae, AList [v])
      = Inr (put_col ae ?c e0, True)"
    using step_single_vector[OF assms(5), of "environment p" "data l" e0 h0 ae] n0 by simp
  have p1: "\<exists>e1. compute_aesthetics_step (environment p) (data l) (e0, h0) (ae, AList [v])
               = Inr (e1, True)
             \<and> nrows e1 = ?N
             \<and> (\<exists>c. getcol e1 ae = Some c \<and> vals c = replicate ?N v)"
    unfolding st using n0 by (simp add: getcol_put_col nrows_put_col)
  have mem: "(ae, AList [v]) \<in> set ?A" by simp
  have lp: "\<And>evaled has.
      compute_aesthetics_loop (environment p) (data l) (frame_with_index_of (data l), False) ?A
        = Inr (evaled, has) \<Longrightarrow> nrows evaled = ?N \<and> getcol evaled ae = Some ?c"
    using loop_single_vector[OF assms(1) i _ assms(3) mem assms(5)] by blast
  have p2: "\<forall>evaled has.
      compute_aesthetics_loop (environment p) (data l) (frame_with_index_of (data l), False) ?A
        = Inr (evaled, has) \<longrightarrow>
      nrows evaled = ?N \<and> (\<exists>c. getcol evaled ae = Some c \<and> vals c = replicate ?N v)"
  proof (intro allI impI)
    fix evaled has
    assume "compute_aesthetics_loop (environment p) (data l) (frame_with_index_of (data l), False) ?A
        = Inr (evaled, has)"
    then have "nrows evaled = ?N \<and> getcol evaled ae = Some ?c" by (rule lp)
    then show "nrows evaled = ?N \<and> (\<exists>c. getcol evaled ae = Some c \<and> vals c = replicate ?N v)"
      by simp
  qed
  have p3: "\<forall>l' sc. compute_aesthetics l p = Inr (l', sc) \<longrightarrow> ae \<noteq> ''PANEL'' \<longrightarrow> ae \<noteq> ''group'' \<longrightarrow>
             nrows (data l') = ?N
           \<and> (\<exists>c. getcol (data l') ae = Some c
                  \<and> vals c = replicate ?N (if is_int64 v then to_float v else v))"
  proof (intro allI impI)
    fix l' sc
    assume ok: "compute_aesthetics l p = Inr (l', sc)" and np: "ae \<noteq> ''PANEL''" and ng: "ae \<noteq> ''group''"
    obtain evaled has0 evaled2 where
      l0: "compute_aesthetics_loop (environment p) (data l) (frame_with_index_of (data l), False)
            (snd (override_group (layer_mapping l (plot_mapping p)))) = Inr (evaled, has0)"
      and sp: "set_panel (data l) has0 (cast_int_columns evaled) = Inr evaled2"
      and ag: "add_group evaled2 = Inr (data l')"
      using compute_aesthetics_success[OF ok] by blast
    have le: "nrows evaled = ?N \<and> getcol evaled ae = Some ?c"
      using lp l0 unfolding assms(2) by blast
    have n1: "0 < nrows (cast_int_columns evaled)" using le assms(1) by (simp add: nrows_cast)
    have c1: "getcol (cast_int_columns evaled) ae
        = Some (if kind ?c = CHR ''i'' then astype_float ?c else ?c)"
      using le by (simp add: getcol_cast)
    have s2: "getcol evaled2 ae = getcol (cast_int_columns evaled) ae"
      "nrows evaled2 = nrows (cast_int_columns evaled)"
      using set_panel_result[OF sp] n1 np by auto
    have s3: "getcol (data l') ae = getcol evaled2 ae" "nrows (data l') = nrows evaled2"
      using add_group_frame[OF ag] ng by auto
    have "getcol (data l') ae = Some (if kind ?c = CHR ''i'' then astype_float ?c else ?c)"
      using s3 s2 c1 by simp
    moreover have "vals (if kind ?c = CHR ''i'' then astype_float ?c else ?c)
        = replicate ?N (if is_int64 v then to_float v else v)"
      by (rule cast_scalar_column)
    moreover have "nrows (data l') = ?N" using s3 s2 le by (simp add: nrows_cast)
    ultimately show "nrows (data l') = ?N
           \<and> (\<exists>c. getcol (data l') ae = Some c
                  \<and> vals c = replicate ?N (if is_int64 v then to_float v else v))"
      by blast
  qed
  show ?thesis using p1 p2 p3 by blast
qed

lemma wf_frame_col_length:
  "wf_frame d \<Longrightarrow> getcol d m = Some c \<Longrightarrow> length (vals c) = nrows d"
proof -
  assume wf: "wf_frame d" and g: "getcol d m = Some c"
  have "(m, c) \<in> set (cols d)" using g by (simp add: getcol_def map_of_SomeD)
  then have "c \<in> set (map snd (cols d))" by force
  then show ?thesis using wf unfolding wf_frame_def by blast
qed

text \<open>
  Claim C6. After \<^verbatim>\<open>compute_aesthetics\<close> has returned: when the dataset of the layer has
  no rows and an aesthetic of the active mapping is a literal vector, every value of the
  \<open>PANEL\<close> column of the resolved dataset is the constant 1; otherwise the \<open>PANEL\<close>
  column is the \<open>PANEL\<close> column of the layer's dataset, assigned as a Series, that is,
  aligned to the rows of the resolved dataset. For a dataset with rows it is that column
  itself.
\<close>

theorem compute_aesthetics_panel:
  assumes "compute_aesthetics l p = Inr (l', sc)"
  shows "(nrows (data l) = 0
            \<and> (\<exists>ae v. (ae, AList v) \<in> set (snd (override_group (layer_mapping l (plot_mapping p)))))
          \<longrightarrow> (\<exists>c. getcol (data l') ''PANEL'' = Some c
                  \<and> vals c = replicate (nrows (data l')) (IntV 1)))
       \<and> (\<not> (nrows (data l) = 0
            \<and> (\<exists>ae v. (ae, AList v) \<in> set (snd (override_group (layer_mapping l (plot_mapping p))))))
          \<longrightarrow> (\<exists>c. getcol (data l) ''PANEL'' = Some c
                  \<and> getcol (data l') ''PANEL'' = Some (reindex (nrows (data l')) c)))
       \<and> (0 < nrows (data l) \<longrightarrow> wf_frame (data l)
          \<longrightarrow> getcol (data l') ''PANEL'' = getcol (data l) ''PANEL''
              \<and> nrows (data l') = nrows (data l))"
proof -
  let ?A = "snd (override_group (layer_mapping l (plot_mapping p)))"
  obtain evaled has evaled2 where
    l0: "compute_aesthetics_loop (environment p) (data l) (frame_with_index_of (data l), False) ?A
          = Inr (evaled, has)"
    and sp: "set_panel (data l) has (cast_int_columns evaled) = Inr evaled2"
    and ag: "add_group evaled2 = Inr (data l')"
    using compute_aesthetics_success[OF assms] by blast
  have fl: "has = (\<exists>ae v. (ae, AList v) \<in> set ?A)" using loop_flag[OF l0] by simp
  have g: "getcol (data l') ''PANEL'' = getcol evaled2 ''PANEL''" "nrows (data l') = nrows evaled2"
    using add_group_frame[OF ag] by auto
  have a: "nrows (data l) = 0 \<and> (\<exists>ae v. (ae, AList v) \<in> set ?A)
      \<longrightarrow> (\<exists>c. getcol (data l') ''PANEL'' = Some c \<and> vals c = replicate (nrows (data l')) (IntV 1))"
    using set_panel_result[OF sp] fl g by auto
  have b: "\<not> (nrows (data l) = 0 \<and> (\<exists>ae v. (ae, AList v) \<in> set ?A))
      \<longrightarrow> (\<exists>c. getcol (data l) ''PANEL'' = Some c
              \<and> getcol (data l') ''PANEL'' = Some (reindex (nrows (data l')) c))"
    using set_panel_result[OF sp] fl g by auto
  have c: "0 < nrows (data l) \<longrightarrow> wf_frame (data l)
      \<longrightarrow> getcol (data l') ''PANEL'' = getcol (data l) ''PANEL'' \<and> nrows (data l') = nrows (data l)"
  proof (intro impI)
    assume pos: "0 < nrows (data l)" and wf: "wf_frame (data l)"
    have i: "nrows (frame_with_index_of (data l)) = nrows (data l)"
      by (simp add: frame_with_index_of_def)
    have n: "nrows evaled = nrows (data l)" using loop_nrows_nonempty[OF pos i l0] .
    then have n1: "0 < nrows (cast_int_columns evaled)" using pos by (simp add: nrows_cast)
    have n2: "nrows evaled2 = nrows (data l)"
      using set_panel_result[OF sp] n1 n by (simp add: nrows_cast)
    obtain c where c: "getcol (data l) ''PANEL'' = Some c"
      and c': "getcol (data l') ''PANEL'' = Some (reindex (nrows (data l')) c)"
      using b pos by auto
    have "length (vals c) = nrows (data l')" using wf_frame_col_length[OF wf c] n2 g by simp
    then show "getcol (data l') ''PANEL'' = getcol (data l) ''PANEL'' \<and> nrows (data l') = nrows (data l)"
      using c c' n2 g by (simp add: reindex_same)
  qed
  show ?thesis using a b c by blast
qed


lemma active_x5:
  "snd (override_group (layer_mapping layer_x5 (plot_mapping plot0))) = [(''x'', AList [IntV 5])]"
  unfolding layer_x5_def by code_simp

lemma is_calculated_aes_x5: "is_calculated_aes [(''x'', AList [IntV 5])] = []"
  by (simp add: is_calculated_aes_def)

lemma layer_x5_active:
  "fst (override_group (layer_mapping layer_x5 (plot_mapping plot0)))
     = (layer_over frame5 [(''x'', AList [IntV 5])])\<lparr>active_mapping := [(''x'', AList [IntV 5])]\<rparr>"
  by (simp add: layer_x5_def override_group_def layer_mapping_def layer_over_def plot0_def
      geom0_def defaults_def is_calculated_aes_x5 Let_def)

lemma loop_x5:
  "compute_aesthetics_loop (environment plot0) (data layer_x5)
     (frame_with_index_of (data layer_x5), False) [(''x'', AList [IntV 5])]
   = Inr (\<lparr>nrows = 5, cols = [(''x'', \<lparr>kind = CHR ''i'', vals = replicate 5 (IntV 5)\<rparr>)]\<rparr>, True)"
  by (simp add: layer_x5_def layer_over_def frame5_def frame_with_index_of_def put_col_def
      infer_column_def int64_def)

lemma compute_aesthetics_x5: "compute_aesthetics layer_x5 plot0 = Inr (layer_x5_resolved, ())"
  unfolding compute_aesthetics_def Let_def active_x5 layer_x5_active loop_x5
  by (simp add: layer_x5_def layer_x5_resolved_def layer_over_def plot0_def frame5_def
      cast_int_columns_def astype_float_def colnames_def set_panel_def getcol_def put_col_def
      reindex_def add_group_def discrete_columns_def DISCRETE_KINDS_def id_column_def NO_GROUP_def
      round_binary64_small)

lemma active_nodata:
  "snd (override_group (layer_mapping layer_nodata (plot_mapping plot0)))
     = [(''x'', AList [IntV 5, IntV 6])]"
  unfolding layer_nodata_def by code_simp

lemma is_calculated_aes_nodata: "is_calculated_aes [(''x'', AList [IntV 5, IntV 6])] = []"
  by (simp add: is_calculated_aes_def)

lemma layer_nodata_active:
  "fst (override_group (layer_mapping layer_nodata (plot_mapping plot0)))
     = (layer_over frame_norows [(''x'', AList [IntV 5, IntV 6])])
         \<lparr>active_mapping := [(''x'', AList [IntV 5, IntV 6])]\<rparr>"
  by (simp add: layer_nodata_def override_group_def layer_mapping_def layer_over_def plot0_def
      geom0_def defaults_def is_calculated_aes_nodata Let_def)

lemma loop_nodata:
  "compute_aesthetics_loop (environment plot0) (data layer_nodata)
     (frame_with_index_of (data layer_nodata), False) [(''x'', AList [IntV 5, IntV 6])]
   = Inr (\<lparr>nrows = 2, cols = [(''x'', \<lparr>kind = CHR ''i'', vals = [IntV 5, IntV 6]\<rparr>)]\<rparr>, True)"
  by (simp add: layer_nodata_def layer_over_def frame_norows_def frame_with_index_of_def
      put_col_def infer_column_def grow_def int64_def)

lemma compute_aesthetics_nodata:
  "compute_aesthetics layer_nodata plot0 = Inr (layer_nodata_resolved, ())"
  unfolding compute_aesthetics_def Let_def active_nodata layer_nodata_active loop_nodata
  by (simp add: layer_nodata_def layer_nodata_resolved_def layer_over_def plot0_def
      frame_norows_def cast_int_columns_def astype_float_def colnames_def set_panel_def
      getcol_def put_col_def infer_column_def add_group_def discrete_columns_def
      DISCRETE_KINDS_def id_column_def NO_GROUP_def eval_nat_numeral round_binary64_small int64_def)

theorem compute_aesthetics_broadcast_witness:
  "0 < nrows (data layer_x5)
   \<and> snd (override_group (layer_mapping layer_x5 (plot_mapping plot0)))
       = [] @ (''x'', AList [IntV 5]) # []
   \<and> distinct (map fst ([] @ (''x'', AList [IntV 5]) # []))
   \<and> \<not> is_list (IntV 5)
   \<and> (\<exists>e1. compute_aesthetics_step (environment plot0) (data layer_x5)
               (frame_with_index_of (data layer_x5), False) (''x'', AList [IntV 5]) = Inr (e1, True)
          \<and> nrows e1 = nrows (data layer_x5)
          \<and> (\<exists>c. getcol e1 ''x'' = Some c \<and> vals c = replicate (nrows (data layer_x5)) (IntV 5)))
   \<and> compute_aesthetics layer_x5 plot0 = Inr (layer_x5_resolved, ())
   \<and> nrows (data layer_x5_resolved) = nrows (data layer_x5)
   \<and> (\<exists>c. getcol (data layer_x5_resolved) ''x'' = Some c
          \<and> vals c = replicate (nrows (data layer_x5))
                (if is_int64 (IntV 5) then to_float (IntV 5) else IntV 5))
   \<and> to_float (IntV 5) = FloatV 5"
proof -
  have n: "0 < nrows (data layer_x5)" by (simp add: layer_x5_def layer_over_def frame5_def)
  have a: "snd (override_group (layer_mapping layer_x5 (plot_mapping plot0)))
      = [] @ (''x'', AList [IntV 5]) # []"
    by (simp add: active_x5)
  have d: "distinct (map fst ([] @ (''x'', AList [IntV 5]) # []))" by simp
  have l: "compute_aesthetics_loop (environment plot0) (data layer_x5)
      (frame_with_index_of (data layer_x5), False) []
    = Inr (frame_with_index_of (data layer_x5), False)"
    by simp
  have s: "\<not> is_list (IntV 5)" by simp
  have ne: "''x'' \<noteq> ''PANEL''" "''x'' \<noteq> ''group''" by simp_all
  have f: "to_float (IntV 5) = FloatV 5" by (simp add: round_binary64_small)
  show ?thesis
    using compute_aesthetics_broadcast [OF n a d l s] n a d s compute_aesthetics_x5 ne f by blast
qed

text \<open>
  The claim as stated covers every aesthetic and every one-element vector. With
  \<open>group\<close> mapped to \<open>[7]\<close> over five rows the stage returns, \<^verbatim>\<open>add_group\<close> recodes the
  column, and every row of \<open>group\<close> in the resolved dataset reads 1, not 7. With \<open>x\<close>
  mapped to \<open>[[1, 2, 3]]\<close> over three rows the unwrapped element is a list, which is
  stored as the three values 1, 2, 3, one per row.
\<close>

lemma active_g7:
  "snd (override_group (layer_mapping layer_g7 (plot_mapping plot0)))
     = [(''group'', AList [IntV 7])]"
  unfolding layer_g7_def by code_simp

lemma is_calculated_aes_g7: "is_calculated_aes [(''group'', AList [IntV 7])] = []"
  by (simp add: is_calculated_aes_def)

lemma layer_g7_active:
  "fst (override_group (layer_mapping layer_g7 (plot_mapping plot0)))
     = (layer_over frame5 [(''group'', AList [IntV 7])])
         \<lparr>active_mapping := [(''group'', AList [IntV 7])]\<rparr>"
  by (simp add: layer_g7_def override_group_def layer_mapping_def layer_over_def plot0_def
      geom0_def defaults_def is_calculated_aes_g7 Let_def)

lemma loop_g7:
  "compute_aesthetics_loop (environment plot0) (data layer_g7)
     (frame_with_index_of (data layer_g7), False) [(''group'', AList [IntV 7])]
   = Inr (\<lparr>nrows = 5, cols = [(''group'', \<lparr>kind = CHR ''i'', vals = replicate 5 (IntV 7)\<rparr>)]\<rparr>,
          True)"
  by (simp add: layer_g7_def layer_over_def frame5_def frame_with_index_of_def put_col_def
      infer_column_def int64_def)

lemma compute_aesthetics_g7: "compute_aesthetics layer_g7 plot0 = Inr (layer_g7_resolved, ())"
  unfolding compute_aesthetics_def Let_def active_g7 layer_g7_active loop_g7
  by (simp add: layer_g7_def layer_g7_resolved_def layer_over_def plot0_def frame5_def
      cast_int_columns_def astype_float_def colnames_def set_panel_def getcol_def put_col_def
      reindex_def add_group_def row_tuples_def row_tuple_def selected_columns_def
      List.map_filter_simps ninteraction_def id_column_def round_binary64_small eval_nat_numeral)

theorem compute_aesthetics_broadcast_counterexample:
  "0 < nrows (data layer_g7)
   \<and> snd (override_group (layer_mapping layer_g7 (plot_mapping plot0)))
       = [(''group'', AList [IntV 7])]
   \<and> compute_aesthetics layer_g7 plot0 = Inr (layer_g7_resolved, ())
   \<and> getcol (data layer_g7_resolved) ''group''
       = Some \<lparr>kind = CHR ''i'', vals = [IntV 1, IntV 1, IntV 1, IntV 1, IntV 1]\<rparr>
   \<and> compute_aesthetics_loop (environment plot0) frame_abc (frame_with_index_of frame_abc, False)
         [(''x'', AList [ListV [IntV 1, IntV 2, IntV 3]])]
       = Inr (\<lparr>nrows = 3, cols = [(''x'', \<lparr>kind = CHR ''i'', vals = [IntV 1, IntV 2, IntV 3]\<rparr>)]\<rparr>,
              True)"
proof -
  have n: "0 < nrows (data layer_g7)" by (simp add: layer_g7_def layer_over_def frame5_def)
  have g: "getcol (data layer_g7_resolved) ''group''
       = Some \<lparr>kind = CHR ''i'', vals = [IntV 1, IntV 1, IntV 1, IntV 1, IntV 1]\<rparr>"
    by (simp add: layer_g7_resolved_def getcol_def)
  have x: "compute_aesthetics_loop (environment plot0) frame_abc (frame_with_index_of frame_abc, False)
         [(''x'', AList [ListV [IntV 1, IntV 2, IntV 3]])]
       = Inr (\<lparr>nrows = 3, cols = [(''x'', \<lparr>kind = CHR ''i'', vals = [IntV 1, IntV 2, IntV 3]\<rparr>)]\<rparr>,
              True)"
    by (simp add: frame_abc_def frame_with_index_of_def put_col_def infer_column_def int64_def)
  show ?thesis using n active_g7 compute_aesthetics_g7 g x by blast
qed

theorem compute_aesthetics_panel_witness:
  "compute_aesthetics layer_nodata plot0 = Inr (layer_nodata_resolved, ())
   \<and> nrows (data layer_nodata) = 0
   \<and> (\<exists>ae v. (ae, AList v) \<in> set (snd (override_group (layer_mapping layer_nodata (plot_mapping plot0)))))
   \<and> (\<exists>c. getcol (data layer_nodata_resolved) ''PANEL'' = Some c
          \<and> vals c = replicate (nrows (data layer_nodata_resolved)) (IntV 1))
   \<and> compute_aesthetics layer_x5 plot0 = Inr (layer_x5_resolved, ())
   \<and> 0 < nrows (data layer_x5) \<and> wf_frame (data layer_x5)
   \<and> getcol (data layer_x5_resolved) ''PANEL'' = getcol (data layer_x5) ''PANEL''"
proof -
  have z: "nrows (data layer_nodata) = 0"
    by (simp add: layer_nodata_def layer_over_def frame_norows_def)
  have v: "\<exists>ae v. (ae, AList v)
      \<in> set (snd (override_group (layer_mapping layer_nodata (plot_mapping plot0))))"
    by (simp add: active_nodata)
  have n: "0 < nrows (data layer_x5)" by (simp add: layer_x5_def layer_over_def frame5_def)
  have wf: "wf_frame (data layer_x5)"
    by (simp add: layer_x5_def layer_over_def frame5_def wf_frame_def colnames_def)
  show ?thesis
    using compute_aesthetics_panel [OF compute_aesthetics_nodata]
      compute_aesthetics_panel [OF compute_aesthetics_x5]
      compute_aesthetics_nodata compute_aesthetics_x5 z v n wf by blast
qed

section \<open>The stages on a dataset without rows\<close>

lemma guarded_stages_on_empty:
  assumes "nrows (data l) = 0"
  shows "setup_data l = Inr (l, Some empty_frame)
       \<and> compute_statistic l pn = Inr (l, Some empty_frame)
       \<and> map_statistic l p = Inr (l, scales p, Some empty_frame)"
  using assms by (simp add: setup_data_def compute_statistic_def map_statistic_def)

lemma compute_position_delegates:
  "pos_setup_params (position l) (data l) = Inl e \<Longrightarrow> compute_position l pn = Inl e"
  by (simp add: compute_position_def)

text \<open>
  Claim C8. Over a dataset without rows, \<^verbatim>\<open>setup_data\<close>, \<^verbatim>\<open>compute_statistic\<close> and
  \<^verbatim>\<open>map_statistic\<close> return a new empty frame and leave the layer as it is, and
  \<^verbatim>\<open>compute_aesthetics\<close> returns with the resolved dataset. \<^verbatim>\<open>compute_position\<close> has no
  test for the empty dataset: it hands the dataset to the position unit, and with a unit
  that does not accept a dataset without rows the stage raises.
\<close>

theorem compute_position_on_empty:
  "nrows (data layer_norows_strict) = 0
   \<and> setup_data layer_norows_strict = Inr (layer_norows_strict, Some empty_frame)
   \<and> compute_statistic layer_norows_strict 0 = Inr (layer_norows_strict, Some empty_frame)
   \<and> map_statistic layer_norows_strict plot0
       = Inr (layer_norows_strict, scales plot0, Some empty_frame)
   \<and> nrows (data layer_nodata) = 0
   \<and> compute_aesthetics layer_nodata plot0 = Inr (layer_nodata_resolved, ())
   \<and> compute_position layer_norows_strict 0 = Inl (ExternalError ''no rows'')"
proof -
  have n: "nrows (data layer_norows_strict) = 0"
    by (simp add: layer_norows_strict_def layer_over_def frame_norows_def)
  have g: "setup_data layer_norows_strict = Inr (layer_norows_strict, Some empty_frame)
       \<and> compute_statistic layer_norows_strict 0 = Inr (layer_norows_strict, Some empty_frame)
       \<and> map_statistic layer_norows_strict plot0
           = Inr (layer_norows_strict, scales plot0, Some empty_frame)"
    using n by (rule guarded_stages_on_empty)
  have z: "nrows (data layer_nodata) = 0"
    by (simp add: layer_nodata_def layer_over_def frame_norows_def)
  have e: "pos_setup_params (position layer_norows_strict) (data layer_norows_strict)
      = Inl (ExternalError ''no rows'')"
    by (simp add: layer_norows_strict_def layer_over_def frame_norows_def pos_strict_def pos0_def)
  have p: "compute_position layer_norows_strict 0 = Inl (ExternalError ''no rows'')"
    using e by (rule compute_position_delegates)
  show ?thesis using n g z compute_aesthetics_nodata p by blast
qed

end
